theory Spec2Isabelle
  imports Main
begin

section \<open>Values carried by the message channel\<close>

text \<open>
  The payload of a message event (\<open>e.data\<close>) is an arbitrary structured value.  It is
  modelled as a JSON-like tree extended with \<open>undefined\<close>; an object is an association
  list read through \<open>map_of\<close>, so the first binding of a key is the one a property read
  sees.  Numbers are integers: the code under study only ever looks at the runtime type of
  a number and at its decimal rendering.  Strings are byte strings.
\<close>

datatype json =
    JUndefined
  | JNull
  | JBool bool
  | JNum int
  | JStr string
  | JArr "json list"
  | JObj "(string \<times> json) list"

text \<open>\<open>obj[key]\<close> on a plain object: \<open>undefined\<close> when the key is absent.\<close>

definition getProp :: "(string \<times> json) list \<Rightarrow> string \<Rightarrow> json" where
  "getProp kv k = (case map_of kv k of None \<Rightarrow> JUndefined | Some v \<Rightarrow> v)"

text \<open>Decimal rendering of numbers, as \<open>Number.prototype.toString\<close> gives for integers.\<close>

function string_of_nat :: "nat \<Rightarrow> string" where
  "string_of_nat n =
     (if n < 10 then [char_of (48 + n)]
      else string_of_nat (n div 10) @ [char_of (48 + n mod 10)])"
  by pat_completeness auto
termination
  by (relation "measure id") auto

declare string_of_nat.simps [simp del]

definition string_of_int :: "int \<Rightarrow> string" where
  "string_of_int i = (if i < 0 then CHR ''-'' # string_of_nat (nat (- i)) else string_of_nat (nat i))"

text \<open>\<open>Array.prototype.join\<close> on strings.\<close>

fun join :: "string \<Rightarrow> string list \<Rightarrow> string" where
  "join sep [] = []"
| "join sep [x] = x"
| "join sep (x # y # ys) = x @ sep @ join sep (y # ys)"

text \<open>
  String conversion of a value inside a template literal (\<open>`${v}`\<close>): an array joins the
  conversions of its elements with a comma, rendering \<open>null\<close> and \<open>undefined\<close> elements
  as the empty string; a plain object renders as \<open>[object Object]\<close>.
\<close>

fun js_toString :: "json \<Rightarrow> string" where
  "js_toString JUndefined = ''undefined''"
| "js_toString JNull = ''null''"
| "js_toString (JBool b) = (if b then ''true'' else ''false'')"
| "js_toString (JNum i) = string_of_int i"
| "js_toString (JStr s) = s"
| "js_toString (JArr xs) =
     join '','' (map (\<lambda>x. if x = JUndefined \<or> x = JNull then [] else js_toString x) xs)"
| "js_toString (JObj kv) = ''[object Object]''"


section \<open>The validation library\<close>

text \<open>
  The schemas of \<open>page.tsx\<close> are built from the combinators of the zod library (version 3:
  the source reads \<open>z.ZodIssue\<close>, the issue code \<open>invalid_literal\<close> and the field
  \<open>received\<close>).  The library is a dependency of the repository, not part of it; its
  synchronous parsers are modelled here as far as the schemas use them.  A parser takes the
  path of the value and the value, and returns a status together with the issues it added
  to the parse context, in the order it added them.
\<close>

datatype seg = Key string | Index nat

type_synonym zpath = "seg list"

text \<open>
  A validation issue.  The four codes \<open>getErrorSummary\<close> distinguishes carry the fields it
  reads; every other code of the library is an \<open>Other_issue\<close> with its code and message.
\<close>

datatype ZodIssue =
    Invalid_type zpath string string
  | Invalid_literal zpath json json
  | Too_small zpath nat string string
  | Invalid_union zpath "ZodIssue list list"
  | Other_issue string zpath string

text \<open>
  \<open>Invalid_type path expected received\<close>, \<open>Invalid_literal path expected received\<close>,
  \<open>Too_small path minimum type message\<close>, \<open>Invalid_union path unionErrors\<close>,
  \<open>Other_issue code path message\<close>.
\<close>

datatype 'a ParseReturn = OK 'a | DIRTY 'a | INVALID

type_synonym 'a parsed = "'a ParseReturn \<times> ZodIssue list"

fun getParsedType :: "json \<Rightarrow> string" where
  "getParsedType JUndefined = ''undefined''"
| "getParsedType JNull = ''null''"
| "getParsedType (JBool b) = ''boolean''"
| "getParsedType (JNum i) = ''number''"
| "getParsedType (JStr s) = ''string''"
| "getParsedType (JArr xs) = ''array''"
| "getParsedType (JObj kv) = ''object''"

text \<open>
  \<open>ParseStatus.mergeObjectSync\<close> and \<open>ParseStatus.mergeArray\<close> combine the results of the
  parts: an aborted part aborts the whole, a dirty part makes the whole dirty.
\<close>

fun mergePair :: "('a \<Rightarrow> 'b) ParseReturn \<Rightarrow> 'a ParseReturn \<Rightarrow> 'b ParseReturn" where
  "mergePair INVALID r = INVALID"
| "mergePair (OK f) INVALID = INVALID"
| "mergePair (DIRTY f) INVALID = INVALID"
| "mergePair (OK f) (OK x) = OK (f x)"
| "mergePair (OK f) (DIRTY x) = DIRTY (f x)"
| "mergePair (DIRTY f) (OK x) = DIRTY (f x)"
| "mergePair (DIRTY f) (DIRTY x) = DIRTY (f x)"

fun mergeArray :: "'a list ParseReturn \<Rightarrow> 'a ParseReturn list \<Rightarrow> 'a list ParseReturn" where
  "mergeArray acc [] = acc"
| "mergeArray acc (r # rs) =
     mergeArray (mergePair (mergePair (OK (\<lambda>xs x. xs @ [x])) acc) r) rs"

text \<open>\<open>z.string()\<close>, with the optional \<open>.min(n, message)\<close> check.\<close>

definition ZodString :: "(nat \<times> string) option \<Rightarrow> zpath \<Rightarrow> json \<Rightarrow> string parsed" where
  "ZodString minCheck p v =
     (case v of
        JStr s \<Rightarrow>
          (case minCheck of
             None \<Rightarrow> (OK s, [])
           | Some (n, m) \<Rightarrow>
               if length s < n then (DIRTY s, [Too_small p n ''string'' m]) else (OK s, []))
      | _ \<Rightarrow> (INVALID, [Invalid_type p ''string'' (getParsedType v)]))"

text \<open>\<open>inner.optional()\<close>: \<open>undefined\<close> is accepted as it is.\<close>

definition ZodOptional :: "(zpath \<Rightarrow> json \<Rightarrow> 'a parsed) \<Rightarrow> zpath \<Rightarrow> json \<Rightarrow> 'a option parsed" where
  "ZodOptional inner p v =
     (if v = JUndefined then (OK None, [])
      else (case inner p v of (r, is) \<Rightarrow> (mergePair (OK Some) r, is)))"

text \<open>\<open>z.literal(value)\<close>: strict equality with a primitive literal.\<close>

definition ZodLiteral :: "json \<Rightarrow> zpath \<Rightarrow> json \<Rightarrow> json parsed" where
  "ZodLiteral lit p v =
     (if v = lit then (OK v, []) else (INVALID, [Invalid_literal p lit v]))"

text \<open>
  \<open>z.array(item)\<close> with the optional \<open>.min(n, message)\<close>: the length check comes first and
  only marks the result dirty; every element is parsed, at its index.
\<close>

fun parseItems :: "(zpath \<Rightarrow> json \<Rightarrow> 'a parsed) \<Rightarrow> zpath \<Rightarrow> nat \<Rightarrow> json list \<Rightarrow> 'a parsed list" where
  "parseItems item p i [] = []"
| "parseItems item p i (x # xs) = item (p @ [Index i]) x # parseItems item p (Suc i) xs"

definition ZodArray ::
  "(zpath \<Rightarrow> json \<Rightarrow> 'a parsed) \<Rightarrow> (nat \<times> string) option \<Rightarrow> zpath \<Rightarrow> json \<Rightarrow> 'a list parsed" where
  "ZodArray item minLength p v =
     (case v of
        JArr xs \<Rightarrow>
          (let small = (case minLength of
                          None \<Rightarrow> []
                        | Some (n, m) \<Rightarrow> if length xs < n then [Too_small p n ''array'' m] else []);
               rs = parseItems item p 0 xs
           in (mergeArray (if small = [] then OK [] else DIRTY []) (map fst rs),
               small @ concat (map snd rs)))
      | _ \<Rightarrow> (INVALID, [Invalid_type p ''array'' (getParsedType v)]))"

text \<open>
  \<open>z.union(options)\<close>, synchronous: the first valid option wins; otherwise the first dirty
  option is returned with its own issues; otherwise one \<open>invalid_union\<close> issue collects the
  issues of every option.
\<close>

fun unionLoop ::
  "(zpath \<Rightarrow> json \<Rightarrow> 'a parsed) list \<Rightarrow> zpath \<Rightarrow> json \<Rightarrow> ('a \<times> ZodIssue list) option \<Rightarrow>
   ZodIssue list list \<Rightarrow> 'a parsed" where
  "unionLoop [] p v dirty errs =
     (case dirty of
        Some (x, is) \<Rightarrow> (DIRTY x, is)
      | None \<Rightarrow> (INVALID, [Invalid_union p errs]))"
| "unionLoop (opt # opts) p v dirty errs =
     (case opt p v of
        (OK x, is) \<Rightarrow> (OK x, [])
      | (DIRTY x, is) \<Rightarrow>
          unionLoop opts p v (case dirty of None \<Rightarrow> Some (x, is) | Some d \<Rightarrow> Some d)
            (if is = [] then errs else errs @ [is])
      | (INVALID, is) \<Rightarrow>
          unionLoop opts p v dirty (if is = [] then errs else errs @ [is]))"

definition ZodUnion :: "(zpath \<Rightarrow> json \<Rightarrow> 'a parsed) list \<Rightarrow> zpath \<Rightarrow> json \<Rightarrow> 'a parsed" where
  "ZodUnion options p v = unionLoop options p v None []"

text \<open>
  \<open>schema.safeParse(data)\<close>: success exactly when the status is valid.  A result that is not
  valid and carries no issue makes the library throw.
\<close>

datatype 'a SafeParseReturn = Success 'a | Failure "ZodIssue list" | Threw

definition safeParse :: "(zpath \<Rightarrow> json \<Rightarrow> 'a parsed) \<Rightarrow> json \<Rightarrow> 'a SafeParseReturn" where
  "safeParse parser v =
     (case parser [] v of
        (OK x, is) \<Rightarrow> Success x
      | (r, is) \<Rightarrow> if is = [] then Threw else Failure is)"


section \<open>Schemas and types of \<open>page.tsx\<close>\<close>

record ProjectFile =
  path :: string
  content :: string
  type :: string

record Project =
  files :: "ProjectFile list"
  description :: "string option"
  instructions :: "string option"

text \<open>
  A \<open>z.object\<close> rejects a value that is not an object, parses the keys of its shape in
  order (an absent key is read as \<open>undefined\<close>) and drops every other key.
\<close>

definition file_schema :: "zpath \<Rightarrow> json \<Rightarrow> ProjectFile parsed" where
  "file_schema p v =
     (case v of
        JObj kv \<Rightarrow>
          (let (r1, i1) = ZodString (Some (1, ''File path cannot be empty'')) (p @ [Key ''path'']) (getProp kv ''path'');
               (r2, i2) = ZodString None (p @ [Key ''content'']) (getProp kv ''content'');
               (r3, i3) = ZodString (Some (1, ''File type cannot be empty'')) (p @ [Key ''type'']) (getProp kv ''type'')
           in (mergePair (mergePair (mergePair (OK (\<lambda>a b c. \<lparr>path = a, content = b, type = c\<rparr>)) r1) r2) r3,
               i1 @ i2 @ i3))
      | _ \<Rightarrow> (INVALID, [Invalid_type p ''object'' (getParsedType v)]))"

definition project :: "zpath \<Rightarrow> json \<Rightarrow> Project parsed" where
  "project p v =
     (case v of
        JObj kv \<Rightarrow>
          (let (r1, i1) = ZodArray file_schema (Some (1, ''At least one file is required'')) (p @ [Key ''files'']) (getProp kv ''files'');
               (r2, i2) = ZodOptional (ZodString None) (p @ [Key ''description'']) (getProp kv ''description'');
               (r3, i3) = ZodOptional (ZodString None) (p @ [Key ''instructions'']) (getProp kv ''instructions'')
           in (mergePair (mergePair (mergePair
                 (OK (\<lambda>a b c. \<lparr>files = a, description = b, instructions = c\<rparr>)) r1) r2) r3,
               i1 @ i2 @ i3))
      | _ \<Rightarrow> (INVALID, [Invalid_type p ''object'' (getParsedType v)]))"

text \<open>
  The parsed envelope: \<open>Flat p\<close> is \<open>{type, data: p}\<close>, \<open>Span p\<close> is
  \<open>{type, data: {output: {data: p}}}\<close>.
\<close>

datatype Envelope = Flat Project | Span Project

definition flat :: "zpath \<Rightarrow> json \<Rightarrow> Envelope parsed" where
  "flat p v =
     (case v of
        JObj kv \<Rightarrow>
          (let (r1, i1) = ZodLiteral (JStr ''data'') (p @ [Key ''type'']) (getProp kv ''type'');
               (r2, i2) = project (p @ [Key ''data'']) (getProp kv ''data'')
           in (mergePair (mergePair (OK (\<lambda>t d. Flat d)) r1) r2, i1 @ i2))
      | _ \<Rightarrow> (INVALID, [Invalid_type p ''object'' (getParsedType v)]))"

text \<open>The two inner objects of the wrapped form.\<close>

definition span_output :: "zpath \<Rightarrow> json \<Rightarrow> Project parsed" where
  "span_output p v =
     (case v of
        JObj kv \<Rightarrow>
          (let (r1, i1) = project (p @ [Key ''data'']) (getProp kv ''data'')
           in (mergePair (OK (\<lambda>d. d)) r1, i1))
      | _ \<Rightarrow> (INVALID, [Invalid_type p ''object'' (getParsedType v)]))"

definition span_data :: "zpath \<Rightarrow> json \<Rightarrow> Project parsed" where
  "span_data p v =
     (case v of
        JObj kv \<Rightarrow>
          (let (r1, i1) = span_output (p @ [Key ''output'']) (getProp kv ''output'')
           in (mergePair (OK (\<lambda>d. d)) r1, i1))
      | _ \<Rightarrow> (INVALID, [Invalid_type p ''object'' (getParsedType v)]))"

definition span :: "zpath \<Rightarrow> json \<Rightarrow> Envelope parsed" where
  "span p v =
     (case v of
        JObj kv \<Rightarrow>
          (let (r1, i1) = ZodLiteral (JStr ''data'') (p @ [Key ''type'']) (getProp kv ''type'');
               (r2, i2) = span_data (p @ [Key ''data'']) (getProp kv ''data'')
           in (mergePair (mergePair (OK (\<lambda>t d. Span d)) r1) r2, i1 @ i2))
      | _ \<Rightarrow> (INVALID, [Invalid_type p ''object'' (getParsedType v)]))"

definition schema :: "zpath \<Rightarrow> json \<Rightarrow> Envelope parsed" where
  "schema = ZodUnion [flat, span]"


text \<open>
  The listener's normalisation, \<open>"files" in parsed.data.data ? parsed.data.data :
  parsed.data.data.output.data\<close>: the parsed \<open>data\<close> of the flat form is the project
  itself, whose key \<open>files\<close> is always set; that of the wrapped form has the single key
  \<open>output\<close>, every other key of the payload having been dropped by the parser.
\<close>

definition normalize :: "Envelope \<Rightarrow> Project" where
  "normalize e = (case e of Flat p \<Rightarrow> p | Span p \<Rightarrow> p)"


section \<open>Helpers of \<open>page.tsx\<close>\<close>

fun getErrorSummary :: "ZodIssue list \<Rightarrow> string" where
  \<open>getErrorSummary [] = ''Unknown validation error''\<close>
| \<open>getErrorSummary (Invalid_type p expected received # rest) =
     ''Expected '' @ expected @ '', got '' @ received\<close>
| \<open>getErrorSummary (Invalid_literal p expected received # rest) =
     ''Expected "'' @ js_toString expected @ ''", got "'' @ js_toString received @ ''"''\<close>
| \<open>getErrorSummary (Too_small p minimum t m # rest) =
     ''Array too small: minimum '' @ string_of_nat minimum @ '' items required''\<close>
| \<open>getErrorSummary (Invalid_union p errs # rest) =
     ''Message format doesn't match expected structure''\<close>
| \<open>getErrorSummary (Other_issue c p m # rest) =
     (if m = [] then ''Validation failed'' else m)\<close>


section \<open>Session state and the message listener\<close>

record Rejected =
  id_r :: string
  time :: string
  origin :: string
  msg :: json
  issues :: "ZodIssue list"
  summary :: string

record ConnectionStatus =
  listening :: bool
  messagesReceived :: nat
  lastMessageTime :: "string option"
  validMessages :: nat
  rejectedMessages :: nat

text \<open>
  The component state the listener writes.  \<open>dismissTimers\<close> counts the pending
  \<open>setTimeout(() => setBanner(false), 10000)\<close> callbacks.  The state of the presentation
  shell (\<open>selected\<close>, \<open>tab\<close>, \<open>html\<close>) is written by neither the listener nor the builder.
\<close>

record State =
  proj :: "Project option"
  rej :: "Rejected list"
  banner :: bool
  previewError :: "string option"
  status :: ConnectionStatus
  dismissTimers :: nat

definition initialState :: State where
  "initialState =
     \<lparr>proj = None, rej = [], banner = False, previewError = None,
      status = \<lparr>listening = True, messagesReceived = 0, lastMessageTime = None,
                validMessages = 0, rejectedMessages = 0\<rparr>,
      dismissTimers = 0\<rparr>"

text \<open>
  A message event, with the readings of the clock the listener takes while handling it:
  \<open>new Date().toISOString()\<close> on receipt, and \<open>Date.now()\<close> and a second
  \<open>new Date().toISOString()\<close> when the message is rejected.
\<close>

record MessageEvent =
  ev_data :: json
  ev_origin :: string
  iso_received :: string
  now_ms :: nat
  iso_rejected :: string

text \<open>The log entry built for a rejected message.\<close>

definition rejectedMsg :: "MessageEvent \<Rightarrow> ZodIssue list \<Rightarrow> Rejected" where
  "rejectedMsg e is =
     \<lparr>id_r = string_of_nat (now_ms e), time = iso_rejected e, origin = ev_origin e,
      msg = ev_data e, issues = is, summary = getErrorSummary is\<rparr>"

text \<open>
  The listener.  The functional updates of \<open>setStatus\<close> compose in the order they are
  queued.  If \<open>safeParse\<close> threw, only the first update would have been queued.
\<close>

definition listener :: "MessageEvent \<Rightarrow> State \<Rightarrow> State" where
  "listener e s =
     (let s1 = s\<lparr>status := (status s)\<lparr>messagesReceived := messagesReceived (status s) + 1,
                                        lastMessageTime := Some (iso_received e)\<rparr>\<rparr>
      in case safeParse schema (ev_data e) of
           Threw \<Rightarrow> s1
         | Failure is \<Rightarrow>
             s1\<lparr>rej := rejectedMsg e is # take 9 (rej s1),
                status := (status s1)\<lparr>rejectedMessages := rejectedMessages (status s1) + 1\<rparr>,
                banner := True,
                dismissTimers := dismissTimers s1 + 1\<rparr>
         | Success parsed \<Rightarrow>
             s1\<lparr>proj := Some (normalize parsed),
                status := (status s1)\<lparr>validMessages := validMessages (status s1) + 1\<rparr>,
                previewError := None\<rparr>)"

text \<open>The state after a sequence of messages, handled one at a time in arrival order.\<close>

definition run :: "MessageEvent list \<Rightarrow> State \<Rightarrow> State" where
  "run es s = foldl (\<lambda>st e. listener e st) s es"

section \<open>Regular expressions\<close>

text \<open>
  \<open>stripTS\<close> and the script test of the builder are written with regular expressions and
  \<open>String.prototype.replace\<close>.  The fragment they use is modelled with the semantics of a
  backtracking matcher: literals, character classes, sequence, alternation in order, greedy
  repetition, capture groups, \<open>\b\<close> and \<open>$\<close>.  Text is ASCII: \<open>\w\<close> and \<open>\s\<close> are their ASCII
  classes, and a string is a list of characters.
\<close>

datatype regex =
    Lit string
  | OneOf string
  | NoneOf string
  | Seq regex regex
  | Alt regex regex
  | Star regex
  | Plus regex
  | Opt regex
  | Group nat regex
  | WordBoundary
  | EndOfInput

text \<open>
  A matcher state: the character before the current position (none at the start of the
  input), the input from the current position on, and the captures made so far.
\<close>

datatype mstate = MState (prevChar: "char option") (input: string) (captures: "(nat \<times> string) list")

definition wordChars :: string where
  "wordChars = ''ABCDEFGHIJKLMNOPQRSTUVWXYZabcdefghijklmnopqrstuvwxyz0123456789_''"

definition spaceChars :: string where
  "spaceChars = [CHR '' '', CHR 0x09, CHR 0x0A, CHR 0x0B, CHR 0x0C, CHR 0x0D]"

definition isWordChar :: "char option \<Rightarrow> bool" where
  "isWordChar c = (case c of None \<Rightarrow> False | Some x \<Rightarrow> x \<in> set wordChars)"

definition startsWith :: "string \<Rightarrow> string \<Rightarrow> bool" where
  "startsWith s l \<longleftrightarrow> take (length l) s = l"

text \<open>One character of a class.\<close>

definition oneChar :: "(char \<Rightarrow> bool) \<Rightarrow> mstate \<Rightarrow> mstate list" where
  "oneChar ok st =
     (case input st of
        [] \<Rightarrow> []
      | c # cs \<Rightarrow> if ok c then [MState (Some c) cs (captures st)] else [])"

text \<open>
  Greedy repetition of a matcher, at most \<open>n\<close> times: the longer chains of iterations are
  tried before the shorter ones, and an iteration that consumes nothing is not repeated.
  With \<open>n\<close> the length of the remaining input no chain is cut short.
\<close>

fun iter :: "(mstate \<Rightarrow> mstate list) \<Rightarrow> nat \<Rightarrow> mstate \<Rightarrow> mstate list" where
  "iter f 0 st = [st]"
| "iter f (Suc n) st =
     concat (map (iter f n) (filter (\<lambda>st'. length (input st') < length (input st)) (f st))) @ [st]"

text \<open>
  All the ways a regular expression matches at the current position, in the order a
  backtracking matcher tries them: the first is the match.
\<close>

primrec rmatch :: "regex \<Rightarrow> mstate \<Rightarrow> mstate list" where
  "rmatch (Lit l) st =
     (if startsWith (input st) l
      then [MState (if l = [] then prevChar st else Some (last l)) (drop (length l) (input st)) (captures st)]
      else [])"
| "rmatch (OneOf cs) st = oneChar (\<lambda>c. c \<in> set cs) st"
| "rmatch (NoneOf cs) st = oneChar (\<lambda>c. c \<notin> set cs) st"
| "rmatch (Seq a b) st = concat (map (rmatch b) (rmatch a st))"
| "rmatch (Alt a b) st = rmatch a st @ rmatch b st"
| "rmatch (Star a) st = iter (rmatch a) (length (input st)) st"
| "rmatch (Plus a) st =
     concat (map (\<lambda>st'. iter (rmatch a) (length (input st')) st') (rmatch a st))"
| "rmatch (Opt a) st = rmatch a st @ [st]"
| "rmatch (Group n a) st =
     map (\<lambda>st'. MState (prevChar st') (input st')
                  ((n, take (length (input st) - length (input st')) (input st)) # captures st'))
       (rmatch a st)"
| "rmatch WordBoundary st =
     (if isWordChar (prevChar st) \<noteq> isWordChar (case input st of [] \<Rightarrow> None | c # cs \<Rightarrow> Some c)
      then [st] else [])"
| "rmatch EndOfInput st = (if input st = [] then [st] else [])"

text \<open>The capture of a group, the empty string when the group did not take part.\<close>

definition capture :: "(nat \<times> string) list \<Rightarrow> nat \<Rightarrow> string" where
  "capture cs n = (case map_of cs n of None \<Rightarrow> [] | Some s \<Rightarrow> s)"

text \<open>
  \<open>s.replace(/r/g, f)\<close>: the input is scanned from the left; at a match the replacement of
  the matched text is emitted and the scan goes on behind the match, elsewhere the
  character is copied.  After an empty match the scan moves one character on.
\<close>

function replaceAll ::
  "regex \<Rightarrow> (string \<Rightarrow> (nat \<times> string) list \<Rightarrow> string) \<Rightarrow> char option \<Rightarrow> string \<Rightarrow> string" where
  "replaceAll r f p s =
     (case rmatch r (MState p s []) of
        [] \<Rightarrow> (case s of [] \<Rightarrow> [] | c # cs \<Rightarrow> c # replaceAll r f (Some c) cs)
      | st # sts \<Rightarrow>
          if length (input st) < length s
          then f (take (length s - length (input st)) s) (captures st) @ replaceAll r f (prevChar st) (input st)
          else f [] (captures st) @ (case s of [] \<Rightarrow> [] | c # cs \<Rightarrow> c # replaceAll r f (Some c) cs))"
  by pat_completeness auto
termination
  by (relation "measure (\<lambda>(r, f, p, s). length s)") auto

declare replaceAll.simps [simp del]

text \<open>\<open>s.replace(/r/, f)\<close> without the \<open>g\<close> flag: only the leftmost match is replaced.\<close>

fun replaceFirst ::
  "regex \<Rightarrow> (string \<Rightarrow> (nat \<times> string) list \<Rightarrow> string) \<Rightarrow> char option \<Rightarrow> string \<Rightarrow> string" where
  "replaceFirst r f p [] =
     (case rmatch r (MState p [] []) of [] \<Rightarrow> [] | st # sts \<Rightarrow> f [] (captures st))"
| "replaceFirst r f p (c # cs) =
     (case rmatch r (MState p (c # cs) []) of
        [] \<Rightarrow> c # replaceFirst r f (Some c) cs
      | st # sts \<Rightarrow>
          f (take (length (c # cs) - length (input st)) (c # cs)) (captures st) @ input st)"

text \<open>\<open>/r/.test(s)\<close>: is there a match at some position.\<close>

fun test :: "regex \<Rightarrow> char option \<Rightarrow> string \<Rightarrow> bool" where
  "test r p [] = (rmatch r (MState p [] []) \<noteq> [])"
| "test r p (c # cs) = (rmatch r (MState p (c # cs) []) \<noteq> [] \<or> test r (Some c) cs)"


section \<open>The syntax stripper\<close>

definition seqs :: "regex list \<Rightarrow> regex" where
  "seqs rs = foldr Seq rs (Lit [])"

definition alts :: "string list \<Rightarrow> regex" where
  "alts ws = foldr (\<lambda>w r. Alt (Lit w) r) (butlast ws) (Lit (last ws))"

definition reSpace :: regex where "reSpace = OneOf spaceChars"

definition reWord :: regex where "reWord = OneOf wordChars"

text \<open>The patterns of \<open>stripTS\<close>, in the order of the source.\<close>

definition reImport :: regex where
  \<open>reImport = seqs [Lit ''import'', Plus (NoneOf '';''), Opt (Lit '';'')]\<close>

definition reExportDefault :: "string \<Rightarrow> regex" where
  \<open>reExportDefault kw = seqs [Lit (''export default '' @ kw), Plus reSpace, Group 1 (Plus reWord)]\<close>

definition reExportDefaultBare :: regex where
  \<open>reExportDefaultBare = seqs [Lit ''export default'', Plus reSpace]\<close>

definition reExportDecl :: regex where
  \<open>reExportDecl =
     seqs [Lit ''export '', Group 1 (alts [''const'', ''function'', ''class'', ''let'', ''var'']),
           Lit '' '']\<close>

definition reExportList :: regex where
  \<open>reExportList = seqs [Lit ''export {'', Plus (NoneOf ''}''), Lit ''}'', Opt (Lit '';'')]\<close>

definition reGenericCall :: regex where
  \<open>reGenericCall =
     seqs [WordBoundary,
           Group 1 (Seq (OneOf ''ABCDEFGHIJKLMNOPQRSTUVWXYZabcdefghijklmnopqrstuvwxyz_$'')
                        (Star (OneOf (wordChars @ ''$'')))),
           Lit ''<'', Plus (NoneOf ''>''), Lit ''>'', Star reSpace, Lit ''('']\<close>

definition reInterface :: regex where
  \<open>reInterface =
     seqs [Lit ''interface'', Plus reSpace, Plus reWord, Star reSpace, Lit ''{'',
           Star (NoneOf ''}''), Lit ''}'']\<close>

definition reTypeAlias :: regex where
  \<open>reTypeAlias =
     seqs [Lit ''type'', Plus reSpace, Plus reWord, Star reSpace, Lit ''='',
           Plus (NoneOf '';''), Lit '';'']\<close>

definition reAnnotation :: regex where
  \<open>reAnnotation =
     seqs [Lit '':'', Star reSpace, Plus reWord, Opt (Group 1 (Lit ''[]'')),
           Star (Group 2 (seqs [Star reSpace, Lit ''|'', Star reSpace, Plus reWord])),
           Star reSpace, OneOf ''=,;)'']\<close>

definition reAnnotationInner :: regex where
  \<open>reAnnotationInner = seqs [Lit '':'', Star reSpace, Plus (NoneOf ''=,;)'')]\<close>

definition reDirective :: regex where
  \<open>reDirective =
     seqs [OneOf [CHR 0x27, CHR 0x22], Lit ''use'', Plus reSpace, alts [''client'', ''server''],
           OneOf [CHR 0x27, CHR 0x22], Opt (Lit '';''), Star reSpace]\<close>

text \<open>The replacements: a fixed text with \<open>$1\<close>, or a function of the match.\<close>

definition drop_match :: "string \<Rightarrow> (nat \<times> string) list \<Rightarrow> string" where
  "drop_match m cs = []"

definition keep_group :: "string \<Rightarrow> string \<Rightarrow> string \<Rightarrow> (nat \<times> string) list \<Rightarrow> string" where
  "keep_group pre post m cs = pre @ capture cs 1 @ post"

definition strip_annotation :: "string \<Rightarrow> (nat \<times> string) list \<Rightarrow> string" where
  "strip_annotation m cs = replaceFirst reAnnotationInner drop_match None m"

text \<open>The rewrites of \<open>stripTS\<close>, each applied to the output of the one before.\<close>

definition stripRules :: "(regex \<times> (string \<Rightarrow> (nat \<times> string) list \<Rightarrow> string)) list" where
  "stripRules =
     [(reImport, drop_match),
      (reExportDefault ''function'', keep_group ''function '' []),
      (reExportDefault ''class'', keep_group ''class '' []),
      (reExportDefault ''const'', keep_group ''const '' []),
      (reExportDefaultBare, drop_match),
      (reExportDecl, keep_group [] '' ''),
      (reExportList, drop_match),
      (reGenericCall, keep_group [] ''(''),
      (reInterface, drop_match),
      (reTypeAlias, drop_match),
      (reAnnotation, strip_annotation),
      (reDirective, drop_match)]"

definition applyRule :: "regex \<times> (string \<Rightarrow> (nat \<times> string) list \<Rightarrow> string) \<Rightarrow> string \<Rightarrow> string" where
  "applyRule rule code = replaceAll (fst rule) (snd rule) None code"

definition applyRules ::
  "(regex \<times> (string \<Rightarrow> (nat \<times> string) list \<Rightarrow> string)) list \<Rightarrow> string \<Rightarrow> string" where
  "applyRules rules code = foldl (\<lambda>c rule. applyRule rule c) code rules"

definition stripTS :: "string \<Rightarrow> string" where
  "stripTS code = applyRules stripRules code"

section \<open>The preview document builder\<close>

text \<open>\<open>String.prototype.includes\<close> and \<open>String.prototype.endsWith\<close>.\<close>

fun includesStr :: "string \<Rightarrow> string \<Rightarrow> bool" where
  "includesStr [] sub = (sub = [])"
| "includesStr (c # cs) sub = (startsWith (c # cs) sub \<or> includesStr cs sub)"

definition endsWith :: "string \<Rightarrow> string \<Rightarrow> bool" where
  "endsWith s suf \<longleftrightarrow> length suf \<le> length s \<and> drop (length s - length suf) s = suf"

text \<open>The predicate of \<open>cssFiles\<close> and the pattern of \<open>jsFiles\<close>, \<open>/\.(t|j)sx?$/\<close>.\<close>

definition isStyle :: "ProjectFile \<Rightarrow> bool" where
  "isStyle f \<longleftrightarrow>
     type f = ''style'' \<or> includesStr (path f) ''globals.css'' \<or> includesStr (path f) ''styles.css'' \<or>
     endsWith (path f) ''.css''"

definition reScript :: regex where
  \<open>reScript =
     seqs [Lit ''.'', Group 1 (Alt (Lit ''t'') (Lit ''j'')), Lit ''s'', Opt (Lit ''x''), EndOfInput]\<close>

definition isScript :: "ProjectFile \<Rightarrow> bool" where
  "isScript f \<longleftrightarrow> test reScript None (path f)"

text \<open>The text of the template literals of \<open>buildPreview\<close>, line by line.\<close>

definition noComponentsDocument :: "string list \<Rightarrow> string" where
  \<open>noComponentsDocument paths = concat
      [''<!DOCTYPE html><html><head><meta charset='utf-8'/></head><body>\<newline>'',
       ''          <div style="padding:24px;font-family:system-ui;text-align:center;">\<newline>'',
       ''            <h2>No React Components Found</h2>\<newline>'',
       ''            <p>Upload files with .js, .jsx, .ts, or .tsx extensions to see a preview.</p>\<newline>'',
       ''            <p>Available files: '',
       join '', '' paths,
       ''</p>\<newline>'',
       ''          </div></body></html>'']\<close>

definition reactSetup :: string where
  \<open>reactSetup = concat
      [''\<newline>'',
       ''        const { \<newline>'',
       ''          useState, useEffect, useRef, useMemo, useCallback, useReducer, \<newline>'',
       ''          useContext, createContext, Fragment, Component, PureComponent,\<newline>'',
       ''          forwardRef, memo, lazy, Suspense\<newline>'',
       ''        } = React;\<newline>'',
       ''        \<newline>'',
       ''        // Common utilities that might be used\<newline>'',
       ''        const cn = (...classes) => classes.filter(Boolean).join(' ');\<newline>'',
       ''        const clsx = cn;\<newline>'',
       ''        const classNames = cn;\<newline>'',
       ''      '']\<close>

definition previewDocument :: "string \<Rightarrow> string \<Rightarrow> string" where
  \<open>previewDocument css userJs = concat
      [''<!DOCTYPE html><html><head>\<newline>'',
       ''        <meta charset='utf-8'/>\<newline>'',
       ''        <meta name='viewport' content='width=device-width,initial-scale=1'/>\<newline>'',
       ''        <title>React App Preview</title>\<newline>'',
       ''        <script crossorigin src='https://unpkg.com/react@18/umd/react.development.js'></script>\<newline>'',
       ''        <script crossorigin src='https://unpkg.com/react-dom@18/umd/react-dom.development.js'></script>\<newline>'',
       ''        <script src='https://unpkg.com/@babel/standalone/babel.min.js'></script>\<newline>'',
       ''        <script src='https://cdn.tailwindcss.com'></script>\<newline>'',
       ''        <style>\<newline>'',
       ''          body { margin: 0; font-family: system-ui, -apple-system, sans-serif; }\<newline>'',
       ''          .error-display { \<newline>'',
       ''            background: #fee; border: 1px solid #fcc; color: #c33; \<newline>'',
       ''            padding: 16px; margin: 16px; border-radius: 8px; \<newline>'',
       ''            white-space: pre-wrap; font-family: monospace; font-size: 14px;\<newline>'',
       ''            max-height: 400px; overflow-y: auto;\<newline>'',
       ''          }\<newline>'',
       ''          .component-list {\<newline>'',
       ''            background: #f8f9fa; border: 1px solid #dee2e6; \<newline>'',
       ''            padding: 12px; margin: 8px 0; border-radius: 6px;\<newline>'',
       ''            font-family: monospace; font-size: 12px;\<newline>'',
       ''          }\<newline>'',
       ''          '',
       css,
       ''\<newline>'',
       ''        </style>\<newline>'',
       ''      </head><body>\<newline>'',
       ''        <div id='root'></div>\<newline>'',
       ''        <script>\<newline>'',
       ''          window.onerror = (msg, url, line, col, error) => {\<newline>'',
       ''            const errorDiv = document.createElement('div');\<newline>'',
       ''            errorDiv.className = 'error-display';\<newline>'',
       ''            errorDiv.textContent = 'Runtime Error:'' @ [CHR 0x5C] @ ''n' + (error && error.stack ? error.stack : msg);\<newline>'',
       ''            document.getElementById('root').innerHTML = '' @ [CHR 0x27] @ [CHR 0x27] @ '';\<newline>'',
       ''            document.getElementById('root').appendChild(errorDiv);\<newline>'',
       ''            return true;\<newline>'',
       ''          };\<newline>'',
       ''          \<newline>'',
       ''          window.addEventListener('unhandledrejection', (event) => {\<newline>'',
       ''            const errorDiv = document.createElement('div');\<newline>'',
       ''            errorDiv.className = 'error-display';\<newline>'',
       ''            errorDiv.textContent = 'Promise Rejection:'' @ [CHR 0x5C] @ ''n' + (event.reason && event.reason.stack ? event.reason.stack : event.reason);\<newline>'',
       ''            document.getElementById('root').innerHTML = '' @ [CHR 0x27] @ [CHR 0x27] @ '';\<newline>'',
       ''            document.getElementById('root').appendChild(errorDiv);\<newline>'',
       ''          });\<newline>'',
       ''        </script>\<newline>'',
       ''        <script type='text/babel' data-presets='typescript,react'>\<newline>'',
       ''          try {\<newline>'',
       ''            '',
       reactSetup,
       ''\<newline>'',
       ''            '',
       userJs,
       ''\<newline>'',
       ''            \<newline>'',
       ''            // Auto-detect root component from common patterns\<newline>'',
       ''            const findRootComponent = () => {\<newline>'',
       ''              // Common component names in order of preference\<newline>'',
       ''              const candidates = [\<newline>'',
       ''                'App', 'HomePage', 'Home', 'Page', 'Main', 'Root', 'Index',\<newline>'',
       ''                'Dashboard', 'Layout', 'Component', 'MyComponent'\<newline>'',
       ''              ];\<newline>'',
       ''              \<newline>'',
       ''              for (const name of candidates) {\<newline>'',
       ''                if (typeof window[name] === 'function') {\<newline>'',
       ''                  return window[name];\<newline>'',
       ''                }\<newline>'',
       ''              }\<newline>'',
       ''              \<newline>'',
       ''              // Look for any function that starts with uppercase (likely a component)\<newline>'',
       ''              const componentNames = Object.getOwnPropertyNames(window).filter(name => \<newline>'',
       ''                typeof window[name] === 'function' && \<newline>'',
       ''                name[0] === name[0].toUpperCase() &&\<newline>'',
       ''                name !== 'Component' && name !== 'PureComponent' // Exclude React base classes\<newline>'',
       ''              );\<newline>'',
       ''              \<newline>'',
       ''              if (componentNames.length > 0) {\<newline>'',
       ''                return window[componentNames[0]];\<newline>'',
       ''              }\<newline>'',
       ''              \<newline>'',
       ''              return null;\<newline>'',
       ''            };\<newline>'',
       ''            \<newline>'',
       ''            const RootComponent = findRootComponent();\<newline>'',
       ''            \<newline>'',
       ''            if (!RootComponent) {\<newline>'',
       ''              // Show available components for debugging\<newline>'',
       ''              const allFunctions = Object.getOwnPropertyNames(window).filter(name => \<newline>'',
       ''                typeof window[name] === 'function'\<newline>'',
       ''              );\<newline>'',
       ''              \<newline>'',
       ''              ReactDOM.createRoot(document.getElementById('root')).render(\<newline>'',
       ''                <div style={{fontFamily:'system-ui',padding:24,textAlign:'center'}}>\<newline>'',
       ''                  <h2>No Root Component Detected</h2>\<newline>'',
       ''                  <p>Could not find a React component to render.</p>\<newline>'',
       ''                  <details style={{marginTop:16,textAlign:'left'}}>\<newline>'',
       ''                    <summary>Looking for components named:</summary>\<newline>'',
       ''                    <div className="component-list">\<newline>'',
       ''                      App, HomePage, Home, Page, Main, Root, Index, Dashboard, Layout, Component, MyComponent\<newline>'',
       ''                    </div>\<newline>'',
       ''                  </details>\<newline>'',
       ''                  <details style={{marginTop:8,textAlign:'left'}}>\<newline>'',
       ''                    <summary>Available functions ({allFunctions.length}):</summary>\<newline>'',
       ''                    <div className="component-list">\<newline>'',
       ''                      {allFunctions.join(', ') || 'None found'}\<newline>'',
       ''                    </div>\<newline>'',
       ''                  </details>\<newline>'',
       ''                  <div style={{marginTop:16,fontSize:14,color:'#666'}}>\<newline>'',
       ''                    Make sure your component is exported as a function and follows React naming conventions.\<newline>'',
       ''                  </div>\<newline>'',
       ''                </div>\<newline>'',
       ''              );\<newline>'',
       ''            } else {\<newline>'',
       ''              class ErrorBoundary extends React.Component {\<newline>'',
       ''                constructor(props) {\<newline>'',
       ''                  super(props);\<newline>'',
       ''                  this.state = { hasError: false, error: null };\<newline>'',
       ''                }\<newline>'',
       ''                \<newline>'',
       ''                static getDerivedStateFromError(error) {\<newline>'',
       ''                  return { hasError: true, error };\<newline>'',
       ''                }\<newline>'',
       ''                \<newline>'',
       ''                componentDidCatch(error, errorInfo) {\<newline>'',
       ''                  console.error('React Error Boundary:', error, errorInfo);\<newline>'',
       ''                }\<newline>'',
       ''                \<newline>'',
       ''                render() {\<newline>'',
       ''                  if (this.state.hasError) {\<newline>'',
       ''                    return (\<newline>'',
       ''                      <div className="error-display">\<newline>'',
       ''                        <strong>React Component Error:</strong>'' @ [CHR 0x5C] @ ''n\<newline>'',
       ''                        {this.state.error && this.state.error.stack ? this.state.error.stack : this.state.error}\<newline>'',
       ''                        '' @ [CHR 0x5C] @ ''n'' @ [CHR 0x5C] @ ''n<strong>Component:</strong> {RootComponent.name || 'Unknown'}\<newline>'',
       ''                      </div>\<newline>'',
       ''                    );\<newline>'',
       ''                  }\<newline>'',
       ''                  return this.props.children;\<newline>'',
       ''                }\<newline>'',
       ''              }\<newline>'',
       ''              \<newline>'',
       ''              ReactDOM.createRoot(document.getElementById('root')).render(\<newline>'',
       ''                <ErrorBoundary>\<newline>'',
       ''                  <RootComponent />\<newline>'',
       ''                </ErrorBoundary>\<newline>'',
       ''              );\<newline>'',
       ''            }\<newline>'',
       ''          } catch (error) {\<newline>'',
       ''            document.getElementById('root').innerHTML = \<newline>'',
       ''              '<div class="error-display"><strong>Compilation Error:</strong>'' @ [CHR 0x5C] @ ''n' + (error.stack || error) + '</div>';\<newline>'',
       ''          }\<newline>'',
       ''        </script>\<newline>'',
       ''      </body></html>'']\<close>

text \<open>
  A thrown value is represented by its string conversion, the only use the builder makes of
  it.  A computation that can throw returns \<open>Inl\<close> of the thrown value; \<open>try\<close>/\<open>catch\<close>
  hands it to the handler.
\<close>

type_synonym thrown = string

definition tryCatch :: "thrown + 'a \<Rightarrow> (thrown \<Rightarrow> 'a) \<Rightarrow> 'a" where
  "tryCatch body handler = (case body of Inr v \<Rightarrow> v | Inl err \<Rightarrow> handler err)"

text \<open>
  The steps of the builder that run code which could throw: the callback of the style
  filter, the callback of the script filter, the stripper, and the evaluation of a template
  literal to the document text.  They are parameters of the builder, so that its two
  handlers have a meaning; \<open>sourceSteps\<close> are the steps of \<open>page.tsx\<close>, none of which throws
  on a validated project.
\<close>

record Steps =
  styleStep :: "ProjectFile \<Rightarrow> thrown + bool"
  scriptStep :: "ProjectFile \<Rightarrow> thrown + bool"
  stripStep :: "string \<Rightarrow> thrown + string"
  templateStep :: "string \<Rightarrow> thrown + string"

definition sourceSteps :: Steps where
  "sourceSteps =
     \<lparr>styleStep = (\<lambda>f. Inr (isStyle f)), scriptStep = (\<lambda>f. Inr (isScript f)),
      stripStep = (\<lambda>code. Inr (stripTS code)), templateStep = (\<lambda>doc. Inr doc)\<rparr>"

text \<open>\<open>Array.prototype.filter\<close> with a callback that can throw: the first throw ends it.\<close>

fun filterT :: "('a \<Rightarrow> thrown + bool) \<Rightarrow> 'a list \<Rightarrow> thrown + 'a list" where
  "filterT t [] = Inr []"
| "filterT t (x # xs) =
     (case t x of
        Inl err \<Rightarrow> Inl err
      | Inr keep \<Rightarrow>
          (case filterT t xs of
             Inl err \<Rightarrow> Inl err
           | Inr ys \<Rightarrow> Inr (if keep then x # ys else ys)))"

text \<open>The callback of \<open>jsFiles.map\<close>, with its own \<open>try\<close>/\<open>catch\<close> around the stripper.\<close>

definition processFile :: "(string \<Rightarrow> thrown + string) \<Rightarrow> ProjectFile \<Rightarrow> string" where
  \<open>processFile strip f =
     tryCatch
       (case strip (content f) of
          Inl err \<Rightarrow> Inl err
        | Inr js \<Rightarrow> Inr (''// File: '' @ path f @ ''\<newline>'' @ js))
       (\<lambda>err. ''// Error processing '' @ path f @ '': '' @ err)\<close>

text \<open>
  The body of the outer \<open>try\<close>.  The result is paired with the argument of
  \<open>setPreviewError\<close>, if it is called; the body never calls it.
\<close>

definition buildBody :: "Steps \<Rightarrow> Project \<Rightarrow> thrown + (string \<times> string option)" where
  \<open>buildBody steps p =
     (case filterT (styleStep steps) (files p) of
        Inl err \<Rightarrow> Inl err
      | Inr cssFiles \<Rightarrow>
          (let css = join ''\<newline>'' (map content cssFiles)
           in case filterT (scriptStep steps) (files p) of
                Inl err \<Rightarrow> Inl err
              | Inr jsFiles \<Rightarrow>
                  if length jsFiles = 0
                  then (case templateStep steps (noComponentsDocument (map path (files p))) of
                          Inl err \<Rightarrow> Inl err
                        | Inr doc \<Rightarrow> Inr (doc, None))
                  else
                    (let userJs = join ''\<newline>\<newline>'' (map (processFile (stripStep steps)) jsFiles)
                     in case templateStep steps (previewDocument css userJs) of
                          Inl err \<Rightarrow> Inl err
                        | Inr doc \<Rightarrow> Inr (doc, None))))\<close>

text \<open>The outer \<open>catch\<close>.\<close>

definition previewCatch :: "thrown \<Rightarrow> string \<times> string option" where
  \<open>previewCatch err =
     (''<!DOCTYPE html><html><body><div class="error-display">Preview Build Error: '' @ err @
        ''</div></body></html>'',
      Some (''Failed to build preview: '' @ err))\<close>

definition buildPreviewWith :: "Steps \<Rightarrow> Project option \<Rightarrow> string \<times> string option" where
  "buildPreviewWith steps pr =
     (case pr of
        None \<Rightarrow> ([], None)
      | Some p \<Rightarrow> tryCatch (buildBody steps p) previewCatch)"

definition buildPreview :: "Project option \<Rightarrow> string \<times> string option" where
  "buildPreview pr = buildPreviewWith sourceSteps pr"

section \<open>Root-component discovery\<close>

text \<open>
  \<open>findRootComponent\<close> is part of the script the builder emits; it runs in the preview
  document after the user code.  The global object is modelled by its own properties, in
  the order \<open>Object.getOwnPropertyNames\<close> lists them; a value is a function, identified by
  a number, or anything else.  \<open>window[name]\<close> is \<open>map_of\<close> on that list, \<open>None\<close> standing
  for \<open>undefined\<close>.
\<close>

datatype winValue = FunctionValue nat | OtherValue

type_synonym window = "(string \<times> winValue) list"

definition isFunction :: "winValue option \<Rightarrow> bool" where
  "isFunction v = (case v of Some (FunctionValue n) \<Rightarrow> True | _ \<Rightarrow> False)"

definition candidates :: "string list" where
  "candidates =
     [''App'', ''HomePage'', ''Home'', ''Page'', ''Main'', ''Root'', ''Index'',
      ''Dashboard'', ''Layout'', ''Component'', ''MyComponent'']"

text \<open>The loop over the candidate names.\<close>

fun searchCandidates :: "window \<Rightarrow> string list \<Rightarrow> winValue option" where
  "searchCandidates w [] = None"
| "searchCandidates w (name # names) =
     (if isFunction (map_of w name) then map_of w name else searchCandidates w names)"

text \<open>
  \<open>name[0] === name[0].toUpperCase()\<close> for an ASCII first character: it is not a lower-case
  letter.  On the empty name \<open>name[0]\<close> is \<open>undefined\<close> and the call throws a \<open>TypeError\<close>.
\<close>

definition startsUpper :: "string \<Rightarrow> string + bool" where
  "startsUpper name =
     (case name of
        [] \<Rightarrow> Inl ''TypeError''
      | c # cs \<Rightarrow> Inr (c \<notin> set ''abcdefghijklmnopqrstuvwxyz''))"

text \<open>The filter of the fallback; the callback of a later name is not reached after a throw.\<close>

fun componentNames :: "window \<Rightarrow> string list \<Rightarrow> string + string list" where
  "componentNames w [] = Inr []"
| "componentNames w (name # names) =
     (if isFunction (map_of w name)
      then (case startsUpper name of
              Inl err \<Rightarrow> Inl err
            | Inr up \<Rightarrow>
                (case componentNames w names of
                   Inl err \<Rightarrow> Inl err
                 | Inr found \<Rightarrow>
                     Inr (if up \<and> name \<noteq> ''Component'' \<and> name \<noteq> ''PureComponent''
                          then name # found else found)))
      else componentNames w names)"

text \<open>The result: the root component, \<open>None\<close> for \<open>null\<close>, or the error thrown.\<close>

definition findRootComponent :: "window \<Rightarrow> string + winValue option" where
  "findRootComponent w =
     (case searchCandidates w candidates of
        Some f \<Rightarrow> Inr (Some f)
      | None \<Rightarrow>
          (case componentNames w (map fst w) of
             Inl err \<Rightarrow> Inl err
           | Inr [] \<Rightarrow> Inr None
           | Inr (name # names) \<Rightarrow> Inr (map_of w name)))"

section \<open>Specification vocabulary\<close>

text \<open>
  The definitions of this section are not translations of source code.  They give names to
  the notions the properties below are stated in: the status of a parse that succeeded,
  property reads on arbitrary values, the data model of the specification, and the two
  envelope shapes.
\<close>

definition isOK :: "'a ParseReturn \<Rightarrow> bool" where
  "isOK r = (case r of OK x \<Rightarrow> True | DIRTY x \<Rightarrow> False | INVALID \<Rightarrow> False)"

text \<open>A parse is sound when a result that is not valid comes with at least one issue.\<close>

definition sound :: "'a parsed \<Rightarrow> bool" where
  "sound pr \<longleftrightarrow> (snd pr = [] \<longrightarrow> isOK (fst pr))"

text \<open>Reading a property of a value that need not be an object.\<close>

definition field :: "json \<Rightarrow> string \<Rightarrow> json" where
  "field v k = (case v of JObj kv \<Rightarrow> getProp kv k | _ \<Rightarrow> JUndefined)"

definition is_string :: "json \<Rightarrow> bool" where
  "is_string v = (case v of JStr s \<Rightarrow> True | _ \<Rightarrow> False)"

definition is_nonempty_string :: "json \<Rightarrow> bool" where
  "is_nonempty_string v = (case v of JStr s \<Rightarrow> s \<noteq> [] | _ \<Rightarrow> False)"

definition is_object :: "json \<Rightarrow> bool" where
  "is_object v = (case v of JObj kv \<Rightarrow> True | _ \<Rightarrow> False)"

text \<open>
  The data model: a project file has a non-empty string \<open>path\<close>, a string \<open>content\<close> and a
  non-empty string \<open>type\<close>; a project has a non-empty sequence of project files and
  optional strings \<open>description\<close> and \<open>instructions\<close>.  Other keys are allowed.
\<close>

definition ProjectFile_shape :: "json \<Rightarrow> bool" where
  "ProjectFile_shape f \<longleftrightarrow>
     is_object f \<and> is_nonempty_string (field f ''path'') \<and> is_string (field f ''content'') \<and>
     is_nonempty_string (field f ''type'')"

definition Project_shape :: "json \<Rightarrow> bool" where
  "Project_shape pj \<longleftrightarrow>
     is_object pj \<and>
     (case field pj ''files'' of JArr fs \<Rightarrow> fs \<noteq> [] \<and> list_all ProjectFile_shape fs | _ \<Rightarrow> False) \<and>
     (field pj ''description'' = JUndefined \<or> is_string (field pj ''description'')) \<and>
     (field pj ''instructions'' = JUndefined \<or> is_string (field pj ''instructions''))"

text \<open>The project a value of that shape denotes.\<close>

definition string_of :: "json \<Rightarrow> string" where
  "string_of v = (case v of JStr s \<Rightarrow> s | _ \<Rightarrow> [])"

definition optional_string_of :: "json \<Rightarrow> string option" where
  "optional_string_of v = (case v of JStr s \<Rightarrow> Some s | _ \<Rightarrow> None)"

definition items_of :: "json \<Rightarrow> json list" where
  "items_of v = (case v of JArr xs \<Rightarrow> xs | _ \<Rightarrow> [])"

definition ProjectFile_of :: "json \<Rightarrow> ProjectFile" where
  "ProjectFile_of f =
     \<lparr>path = string_of (field f ''path''), content = string_of (field f ''content''),
      type = string_of (field f ''type'')\<rparr>"

definition Project_of :: "json \<Rightarrow> Project" where
  "Project_of pj =
     \<lparr>files = map ProjectFile_of (items_of (field pj ''files'')),
      description = optional_string_of (field pj ''description''),
      instructions = optional_string_of (field pj ''instructions'')\<rparr>"

text \<open>The flat and the wrapped envelope around a project value.\<close>

definition flat_envelope :: "json \<Rightarrow> json" where
  "flat_envelope pj = JObj [(''type'', JStr ''data''), (''data'', pj)]"

definition wrapped_envelope :: "json \<Rightarrow> json" where
  "wrapped_envelope pj =
     JObj [(''type'', JStr ''data''), (''data'', JObj [(''output'', JObj [(''data'', pj)])])]"




text \<open>The message \<open>{"type":"data","data":{"files":[]}}\<close>.\<close>

definition emptyFilesMessage :: json where
  "emptyFilesMessage = JObj [(''type'', JStr ''data''), (''data'', JObj [(''files'', JArr [])])]"

text \<open>The log entries of the rejected messages of a sequence, in arrival order.\<close>

definition rejections :: "MessageEvent list \<Rightarrow> Rejected list" where
  "rejections es =
     List.map_filter
       (\<lambda>e. case safeParse schema (ev_data e) of
              Failure is \<Rightarrow> Some (rejectedMsg e is)
            | Success x \<Rightarrow> None
            | Threw \<Rightarrow> None) es"

text \<open>Concrete inputs used to exercise the theorems.\<close>

definition sampleFile :: json where
  "sampleFile =
     JObj [(''path'', JStr ''App.tsx''),
           (''content'', JStr ''export default function App(){return null}''),
           (''type'', JStr ''component'')]"

definition sampleProject :: json where
  "sampleProject = JObj [(''files'', JArr [sampleFile])]"

definition sampleEvent :: "json \<Rightarrow> MessageEvent" where
  "sampleEvent v =
     \<lparr>ev_data = v, ev_origin = ''https://example.test'', iso_received = ''2025-01-01T00:00:00.000Z'',
      now_ms = 1735689600000, iso_rejected = ''2025-01-01T00:00:00.001Z''\<rparr>"




text \<open>The export-removal rules and the type-annotation-removal rule of the stripper.\<close>

definition exportRules :: "(regex \<times> (string \<Rightarrow> (nat \<times> string) list \<Rightarrow> string)) list" where
  "exportRules =
     [(reExportDefault ''function'', keep_group ''function '' []),
      (reExportDefault ''class'', keep_group ''class '' []),
      (reExportDefault ''const'', keep_group ''const '' []),
      (reExportDefaultBare, drop_match),
      (reExportDecl, keep_group [] '' ''),
      (reExportList, drop_match)]"

definition annotationRules :: "(regex \<times> (string \<Rightarrow> (nat \<times> string) list \<Rightarrow> string)) list" where
  "annotationRules = [(reAnnotation, strip_annotation)]"

text \<open>
  The balance delta of a pair of delimiters in a text: the distance between the number of
  opening and the number of closing ones.
\<close>

definition count_char :: "char \<Rightarrow> string \<Rightarrow> nat" where
  "count_char c s = length (filter (\<lambda>x. x = c) s)"

definition imbalance :: "char \<Rightarrow> char \<Rightarrow> string \<Rightarrow> nat" where
  "imbalance opening closing s =
     (if count_char opening s < count_char closing s
      then count_char closing s - count_char opening s
      else count_char opening s - count_char closing s)"

text \<open>No pattern of a list of rules has a match anywhere in a text.\<close>

definition untouched ::
  "(regex \<times> (string \<Rightarrow> (nat \<times> string) list \<Rightarrow> string)) list \<Rightarrow> string \<Rightarrow> bool" where
  "untouched rules s = list_all (\<lambda>rule. \<not> test (fst rule) None s) rules"

definition sampleWindow :: window where
  "sampleWindow =
     [(''alert'', FunctionValue 0), (''HomePage'', FunctionValue 1), (''name'', OtherValue),
      (''App'', FunctionValue 2)]"

definition stylesOnlyProject :: Project where
  "stylesOnlyProject =
     \<lparr>files = [\<lparr>path = ''styles.css'', content = ''body { margin: 0; }'', type = ''style''\<rparr>,
               \<lparr>path = ''README.md'', content = ''# Demo'', type = ''doc''\<rparr>],
      description = None, instructions = None\<rparr>"

text \<open>
  Syntactic facts about a regular expression, used to bound what a replacement can emit:
  it consumes only characters of \<open>K\<close>; each of its groups captures only characters of
  \<open>K\<close>; every match of it consumes the character \<open>c\<close>.
\<close>

fun consumesOnly :: "string \<Rightarrow> regex \<Rightarrow> bool" where
  "consumesOnly K (Lit l) = list_all (\<lambda>c. c \<in> set K) l"
| "consumesOnly K (OneOf cs) = list_all (\<lambda>c. c \<in> set K) cs"
| "consumesOnly K (NoneOf cs) = False"
| "consumesOnly K (Seq a b) = (consumesOnly K a \<and> consumesOnly K b)"
| "consumesOnly K (Alt a b) = (consumesOnly K a \<and> consumesOnly K b)"
| "consumesOnly K (Star a) = consumesOnly K a"
| "consumesOnly K (Plus a) = consumesOnly K a"
| "consumesOnly K (Opt a) = consumesOnly K a"
| "consumesOnly K (Group n a) = consumesOnly K a"
| "consumesOnly K WordBoundary = True"
| "consumesOnly K EndOfInput = True"

fun groupsOnly :: "string \<Rightarrow> regex \<Rightarrow> bool" where
  "groupsOnly K (Lit l) = True"
| "groupsOnly K (OneOf cs) = True"
| "groupsOnly K (NoneOf cs) = True"
| "groupsOnly K (Seq a b) = (groupsOnly K a \<and> groupsOnly K b)"
| "groupsOnly K (Alt a b) = (groupsOnly K a \<and> groupsOnly K b)"
| "groupsOnly K (Star a) = groupsOnly K a"
| "groupsOnly K (Plus a) = groupsOnly K a"
| "groupsOnly K (Opt a) = groupsOnly K a"
| "groupsOnly K (Group n a) = (consumesOnly K a \<and> groupsOnly K a)"
| "groupsOnly K WordBoundary = True"
| "groupsOnly K EndOfInput = True"

fun mustConsume :: "char \<Rightarrow> regex \<Rightarrow> bool" where
  "mustConsume c (Lit l) = (c \<in> set l)"
| "mustConsume c (OneOf cs) = False"
| "mustConsume c (NoneOf cs) = False"
| "mustConsume c (Seq a b) = (mustConsume c a \<or> mustConsume c b)"
| "mustConsume c (Alt a b) = (mustConsume c a \<and> mustConsume c b)"
| "mustConsume c (Star a) = False"
| "mustConsume c (Plus a) = mustConsume c a"
| "mustConsume c (Opt a) = False"
| "mustConsume c (Group n a) = mustConsume c a"
| "mustConsume c WordBoundary = False"
| "mustConsume c EndOfInput = False"

text \<open>
  A matcher state lies behind another when its input is what is left of the other's after
  a consumed text with a given property; the captures of a state lie in \<open>K\<close>.
\<close>

definition consumed :: "(string \<Rightarrow> bool) \<Rightarrow> mstate \<Rightarrow> mstate \<Rightarrow> bool" where
  "consumed P st st' \<longleftrightarrow> (\<exists>m. input st = m @ input st' \<and> P m)"

definition capsIn :: "string \<Rightarrow> mstate \<Rightarrow> bool" where
  "capsIn K st \<longleftrightarrow> (\<forall>g\<in>set (captures st). set (snd g) \<subseteq> set K)"






section \<open>Properties of the validator and the listener\<close>

subsection \<open>Every rejection carries an issue\<close>

lemma isOK_simps [simp]: "isOK (OK x)" "\<not> isOK (DIRTY x)" "\<not> isOK INVALID"
  by (simp_all add: isOK_def)

lemma isOK_mergePair [simp]: "isOK (mergePair a b) \<longleftrightarrow> isOK a \<and> isOK b"
  by (cases a; cases b) simp_all

lemma isOK_mergeArray: "isOK (mergeArray acc rs) \<longleftrightarrow> isOK acc \<and> (\<forall>r\<in>set rs. isOK r)"
  by (induction rs arbitrary: acc) auto

lemma sound_ZodString: "sound (ZodString c p v)"
  by (auto simp: sound_def ZodString_def split: json.splits option.splits)

lemma sound_ZodLiteral: "sound (ZodLiteral l p v)"
  by (simp add: sound_def ZodLiteral_def)

lemma sound_ZodOptional:
  assumes "\<And>p v. sound (inner p v)"
  shows "sound (ZodOptional inner p v)"
  using assms [of p v] by (auto simp: sound_def ZodOptional_def split: prod.splits)

lemma sound_parseItems:
  assumes "\<And>p v. sound (item p v)"
  shows "\<forall>r\<in>set (parseItems item p i xs). sound r"
  using assms by (induction xs arbitrary: i) auto

lemma sound_ZodArray:
  assumes "\<And>p v. sound (item p v)"
  shows "sound (ZodArray item m p v)"
proof (cases v)
  case (JArr xs)
  have "\<forall>r\<in>set (parseItems item p 0 xs). sound r"
    using assms by (rule sound_parseItems)
  then have "concat (map snd (parseItems item p 0 xs)) = [] \<Longrightarrow>
      \<forall>r\<in>set (map fst (parseItems item p 0 xs)). isOK r"
    by (auto simp: sound_def)
  then show ?thesis
    using JArr by (auto simp: sound_def ZodArray_def Let_def isOK_mergeArray split: option.splits)
qed (simp_all add: sound_def ZodArray_def)

lemma sound_file: "sound (file_schema p v)"
proof (cases v)
  case (JObj kv)
  show ?thesis
    using sound_ZodString [of "Some (1, ''File path cannot be empty'')" "p @ [Key ''path'']" "getProp kv ''path''"]
      sound_ZodString [of None "p @ [Key ''content'']" "getProp kv ''content''"]
      sound_ZodString [of "Some (1, ''File type cannot be empty'')" "p @ [Key ''type'']" "getProp kv ''type''"]
    by (auto simp: JObj sound_def file_schema_def split: prod.splits)
qed (simp_all add: sound_def file_schema_def)

lemma sound_project: "sound (project p v)"
proof (cases v)
  case (JObj kv)
  show ?thesis
    using sound_ZodArray [of file_schema "Some (1, ''At least one file is required'')" "p @ [Key ''files'']" "getProp kv ''files''", OF sound_file]
      sound_ZodOptional [of "ZodString None" "p @ [Key ''description'']" "getProp kv ''description''", OF sound_ZodString]
      sound_ZodOptional [of "ZodString None" "p @ [Key ''instructions'']" "getProp kv ''instructions''", OF sound_ZodString]
    by (auto simp: JObj sound_def project_def split: prod.splits)
qed (simp_all add: sound_def project_def)

lemma sound_flat: "sound (flat p v)"
proof (cases v)
  case (JObj kv)
  show ?thesis
    using sound_ZodLiteral [of "JStr ''data''" "p @ [Key ''type'']" "getProp kv ''type''"]
      sound_project [of "p @ [Key ''data'']" "getProp kv ''data''"]
    by (auto simp: JObj sound_def flat_def split: prod.splits)
qed (simp_all add: sound_def flat_def)

lemma sound_span_output: "sound (span_output p v)"
proof (cases v)
  case (JObj kv)
  show ?thesis
    using sound_project [of "p @ [Key ''data'']" "getProp kv ''data''"]
    by (auto simp: JObj sound_def span_output_def split: prod.splits)
qed (simp_all add: sound_def span_output_def)

lemma sound_span_data: "sound (span_data p v)"
proof (cases v)
  case (JObj kv)
  show ?thesis
    using sound_span_output [of "p @ [Key ''output'']" "getProp kv ''output''"]
    by (auto simp: JObj sound_def span_data_def split: prod.splits)
qed (simp_all add: sound_def span_data_def)

lemma sound_span: "sound (span p v)"
proof (cases v)
  case (JObj kv)
  show ?thesis
    using sound_ZodLiteral [of "JStr ''data''" "p @ [Key ''type'']" "getProp kv ''type''"]
      sound_span_data [of "p @ [Key ''data'']" "getProp kv ''data''"]
    by (auto simp: JObj sound_def span_def split: prod.splits)
qed (simp_all add: sound_def span_def)

lemma sound_unionLoop:
  assumes "\<forall>opt\<in>set opts. \<forall>p v. sound (opt p v)"
    and "case dirty of None \<Rightarrow> True | Some (x, is) \<Rightarrow> is \<noteq> []"
  shows "sound (unionLoop opts p v dirty errs)"
  using assms
proof (induction opts arbitrary: dirty errs)
  case Nil
  then show ?case by (auto simp: sound_def split: option.splits)
next
  case (Cons opt opts)
  obtain r "is" where r: "opt p v = (r, is)" by (cases "opt p v")
  have s: "sound (r, is)" using Cons.prems(1) r by (metis list.set_intros(1))
  show ?case
  proof (cases r)
    case (OK x)
    then show ?thesis using r by (simp add: sound_def)
  next
    case (DIRTY x)
    then have "is \<noteq> []" using s by (auto simp: sound_def)
    then have "case (case dirty of None \<Rightarrow> Some (x, is) | Some d \<Rightarrow> Some d) of None \<Rightarrow> True | Some (x, is) \<Rightarrow> is \<noteq> []"
      using Cons.prems(2) by (auto split: option.splits)
    then show ?thesis using r DIRTY Cons.IH Cons.prems(1) by simp
  next
    case INVALID
    then show ?thesis using r Cons.IH Cons.prems by simp
  qed
qed

lemma sound_schema: "sound (schema p v)"
  unfolding schema_def ZodUnion_def
  by (rule sound_unionLoop) (auto simp: sound_flat sound_span)

lemma safeParse_schema_not_Threw: "safeParse schema v \<noteq> Threw"
  using sound_schema [of "[]" v]
  by (auto simp: safeParse_def sound_def split: prod.splits ParseReturn.splits)

lemma listener_cases:
  "(\<exists>x. safeParse schema (ev_data e) = Success x) \<or> (\<exists>is. safeParse schema (ev_data e) = Failure is)"
  using safeParse_schema_not_Threw [of "ev_data e"] by (cases "safeParse schema (ev_data e)") auto

subsection \<open>The error summary\<close>


subsection \<open>Counters\<close>

text \<open>
  Claim C9.  If \<open>messagesReceived = validMessages + rejectedMessages\<close> holds before a
  message is handled, it holds afterwards; the message adds exactly one to
  \<open>messagesReceived\<close> and exactly one to exactly one of \<open>validMessages\<close> and
  \<open>rejectedMessages\<close>.
\<close>

theorem listener_counters:
  assumes "messagesReceived (status s) = validMessages (status s) + rejectedMessages (status s)"
  shows "messagesReceived (status (listener e s)) =
           validMessages (status (listener e s)) + rejectedMessages (status (listener e s)) \<and>
         messagesReceived (status (listener e s)) = messagesReceived (status s) + 1 \<and>
         (validMessages (status (listener e s)) = validMessages (status s) + 1 \<and>
            rejectedMessages (status (listener e s)) = rejectedMessages (status s)
          \<or> validMessages (status (listener e s)) = validMessages (status s) \<and>
            rejectedMessages (status (listener e s)) = rejectedMessages (status s) + 1)"
  using assms listener_cases [of e]
  by (auto simp: listener_def Let_def)

theorem listener_counters_witness:
  "messagesReceived (status initialState) =
     validMessages (status initialState) + rejectedMessages (status initialState) \<and>
   messagesReceived (status (listener (sampleEvent emptyFilesMessage) initialState)) = 1 \<and>
   validMessages (status (listener (sampleEvent emptyFilesMessage) initialState)) +
     rejectedMessages (status (listener (sampleEvent emptyFilesMessage) initialState)) = 1"
  using listener_counters [of initialState "sampleEvent emptyFilesMessage"]
  by (simp add: initialState_def)

subsection \<open>The empty file list, end to end\<close>

lemma schema_emptyFiles:
  "schema [] emptyFilesMessage =
     (DIRTY (Flat \<lparr>files = [], description = None, instructions = None\<rparr>),
      [Too_small [Key ''data'', Key ''files''] 1 ''array'' ''At least one file is required''])"
  by (simp add: emptyFilesMessage_def schema_def ZodUnion_def flat_def span_def project_def
      span_data_def span_output_def ZodArray_def ZodLiteral_def getProp_def ZodOptional_def Let_def)

lemma string_of_nat_1: "string_of_nat (Suc 0) = ''1''"
  by code_simp

text \<open>
  Claim C8.  Handling \<open>{"type":"data","data":{"files":[]}}\<close> in any state, from any
  origin and at any time, puts at the head of the rejection log an entry whose issue list
  is one \<open>too_small\<close> issue (minimum 1, on the array at \<open>data.files\<close>) and whose summary is
  \<open>Array too small: minimum 1 items required\<close>; the current project, present or absent,
  is the one held before.
\<close>

theorem empty_files_rejected:
  "listener \<lparr>ev_data = emptyFilesMessage, ev_origin = orig, iso_received = t1, now_ms = n,
             iso_rejected = t2\<rparr> s =
     s\<lparr>rej := \<lparr>id_r = string_of_nat n, time = t2, origin = orig, msg = emptyFilesMessage,
               issues = [Too_small [Key ''data'', Key ''files''] 1 ''array''
                           ''At least one file is required''],
               summary = ''Array too small: minimum 1 items required''\<rparr> # take 9 (rej s),
       banner := True,
       status := (status s)\<lparr>messagesReceived := messagesReceived (status s) + 1,
                              lastMessageTime := Some t1,
                              rejectedMessages := rejectedMessages (status s) + 1\<rparr>,
       dismissTimers := dismissTimers s + 1\<rparr> \<and>
   proj (listener \<lparr>ev_data = emptyFilesMessage, ev_origin = orig, iso_received = t1, now_ms = n,
             iso_rejected = t2\<rparr> s) = proj s"
  by (simp add: listener_def safeParse_def schema_emptyFiles string_of_nat_1 rejectedMsg_def)

subsection \<open>Shape invariance\<close>

lemma file_schema_shape:
  assumes "ProjectFile_shape f"
  shows "file_schema p f = (OK (ProjectFile_of f), [])"
proof -
  obtain kv where f: "f = JObj kv"
    using assms by (cases f) (simp_all add: ProjectFile_shape_def is_object_def)
  obtain a where a: "getProp kv ''path'' = JStr a" "a \<noteq> []"
    using assms unfolding f ProjectFile_shape_def field_def is_nonempty_string_def
    by (cases "getProp kv ''path''") simp_all
  obtain b where b: "getProp kv ''content'' = JStr b"
    using assms unfolding f ProjectFile_shape_def field_def is_string_def
    by (cases "getProp kv ''content''") simp_all
  obtain c where c: "getProp kv ''type'' = JStr c" "c \<noteq> []"
    using assms unfolding f ProjectFile_shape_def field_def is_nonempty_string_def
    by (cases "getProp kv ''type''") simp_all
  have la: "\<not> length a < Suc 0" and lc: "\<not> length c < Suc 0"
    using a(2) c(2) by (cases a; simp)+
  show ?thesis
    using la lc
    by (simp add: f file_schema_def a b c ZodString_def ProjectFile_of_def field_def string_of_def)
qed

lemma mergeArray_OK: "mergeArray (OK acc) (map (OK \<circ> g) ys) = OK (acc @ map g ys)"
  by (induction ys arbitrary: acc) simp_all

lemma parseItems_shape:
  assumes "list_all ProjectFile_shape fs"
  shows "parseItems file_schema p i fs = map (\<lambda>f. (OK (ProjectFile_of f), [])) fs"
  using assms by (induction fs arbitrary: i) (simp_all add: file_schema_shape)

lemma ZodArray_shape:
  assumes "fs \<noteq> []" "list_all ProjectFile_shape fs"
  shows "ZodArray file_schema (Some (Suc 0, m)) p (JArr fs) = (OK (map ProjectFile_of fs), [])"
proof -
  have l: "\<not> length fs < Suc 0" using assms(1) by (cases fs) simp_all
  have "map fst (parseItems file_schema p 0 fs) = map OK (map ProjectFile_of fs)"
    by (simp add: parseItems_shape [OF assms(2)] comp_def)
  moreover have "concat (map snd (parseItems file_schema p 0 fs)) = []"
    by (simp add: parseItems_shape [OF assms(2)] comp_def)
  ultimately show ?thesis
    using l by (simp add: ZodArray_def Let_def mergeArray_OK)
qed

lemma optional_string_shape:
  assumes "v = JUndefined \<or> is_string v"
  shows "ZodOptional (ZodString None) p v = (OK (optional_string_of v), [])"
  using assms
  by (cases v) (simp_all add: ZodOptional_def ZodString_def optional_string_of_def is_string_def)

lemma project_shape:
  assumes "Project_shape pj"
  shows "project p pj = (OK (Project_of pj), [])"
proof -
  obtain kv where pj: "pj = JObj kv"
    using assms by (cases pj) (simp_all add: Project_shape_def is_object_def)
  obtain fs where fs: "getProp kv ''files'' = JArr fs" "fs \<noteq> []" "list_all ProjectFile_shape fs"
    using assms unfolding pj Project_shape_def field_def
    by (cases "getProp kv ''files''") simp_all
  have d: "getProp kv ''description'' = JUndefined \<or> is_string (getProp kv ''description'')"
    and i: "getProp kv ''instructions'' = JUndefined \<or> is_string (getProp kv ''instructions'')"
    using assms unfolding pj Project_shape_def field_def by simp_all
  show ?thesis
    by (simp add: pj project_def fs(1) ZodArray_shape [OF fs(2,3)]
        optional_string_shape [OF d] optional_string_shape [OF i]
        Project_of_def field_def items_of_def)
qed

lemma flat_flat_envelope:
  assumes "Project_shape pj"
  shows "flat [] (flat_envelope pj) = (OK (Flat (Project_of pj)), [])"
  by (simp add: flat_def flat_envelope_def getProp_def ZodLiteral_def project_shape [OF assms])

lemma span_wrapped_envelope:
  assumes "Project_shape pj"
  shows "span [] (wrapped_envelope pj) = (OK (Span (Project_of pj)), [])"
  by (simp add: span_def span_data_def span_output_def wrapped_envelope_def getProp_def
      ZodLiteral_def project_shape [OF assms])

lemma flat_wrapped_envelope:
  "\<exists>is. flat [] (wrapped_envelope pj) = (INVALID, is)"
  by (simp add: flat_def wrapped_envelope_def getProp_def ZodLiteral_def project_def
      ZodArray_def ZodOptional_def split: prod.splits)

text \<open>
  Claim C1.  For every project value of the data model's shape, the flat envelope around
  it and the wrapped envelope around it both pass validation, the first through the flat
  arm and the second through the wrapped arm, and the listener stores the same project
  for both.
\<close>

theorem shape_invariance:
  assumes "Project_shape pj"
    and "ev_data e1 = flat_envelope pj" and "ev_data e2 = wrapped_envelope pj"
  shows "safeParse schema (flat_envelope pj) = Success (Flat (Project_of pj)) \<and>
         safeParse schema (wrapped_envelope pj) = Success (Span (Project_of pj)) \<and>
         proj (listener e1 s1) = Some (Project_of pj) \<and>
         proj (listener e2 s2) = Some (Project_of pj)"
proof -
  have a: "safeParse schema (flat_envelope pj) = Success (Flat (Project_of pj))"
    by (simp add: safeParse_def schema_def ZodUnion_def flat_flat_envelope [OF assms(1)])
  obtain "is" where "flat [] (wrapped_envelope pj) = (INVALID, is)"
    using flat_wrapped_envelope by blast
  then have b: "safeParse schema (wrapped_envelope pj) = Success (Span (Project_of pj))"
    by (simp add: safeParse_def schema_def ZodUnion_def span_wrapped_envelope [OF assms(1)])
  show ?thesis
    using a b assms(2,3) by (simp add: listener_def normalize_def)
qed

theorem shape_invariance_witness:
  "Project_shape sampleProject \<and>
   safeParse schema (flat_envelope sampleProject) = Success (Flat (Project_of sampleProject)) \<and>
   safeParse schema (wrapped_envelope sampleProject) = Success (Span (Project_of sampleProject)) \<and>
   proj (listener (sampleEvent (flat_envelope sampleProject)) initialState) =
     proj (listener (sampleEvent (wrapped_envelope sampleProject)) initialState) \<and>
   proj (listener (sampleEvent (flat_envelope sampleProject)) initialState) =
     Some \<lparr>files = [\<lparr>path = ''App.tsx'',
                      content = ''export default function App(){return null}'',
                      type = ''component''\<rparr>],
           description = None, instructions = None\<rparr>"
proof -
  have s: "Project_shape sampleProject"
    by (simp add: Project_shape_def ProjectFile_shape_def sampleProject_def sampleFile_def
        is_object_def is_string_def is_nonempty_string_def field_def getProp_def)
  have p: "Project_of sampleProject =
      \<lparr>files = [\<lparr>path = ''App.tsx'',
                      content = ''export default function App(){return null}'',
                      type = ''component''\<rparr>],
           description = None, instructions = None\<rparr>"
    by (simp add: Project_of_def ProjectFile_of_def sampleProject_def sampleFile_def
        field_def getProp_def items_of_def string_of_def optional_string_of_def)
  show ?thesis
    using s p shape_invariance [OF s, of "sampleEvent (flat_envelope sampleProject)"
        "sampleEvent (wrapped_envelope sampleProject)" initialState initialState]
    by (simp add: sampleEvent_def)
qed

subsection \<open>Defective projects are rejected\<close>
























subsection \<open>The rejection log\<close>

lemma rej_listener:
  "rej (listener e s) =
     (case safeParse schema (ev_data e) of
        Failure is \<Rightarrow> rejectedMsg e is # take 9 (rej s)
      | Success x \<Rightarrow> rej s
      | Threw \<Rightarrow> rej s)"
  by (simp add: listener_def Let_def split: SafeParseReturn.splits)

lemma take_push: "take 10 (xs @ r # take 9 ys) = take 10 (xs @ r # ys)"
  by (simp add: take_Cons' min_def)

lemma rej_run:
  "rej (run es s) = take 10 (rev (rejections es) @ rej s)" if "length (rej s) \<le> 10"
  using that
proof (induction es arbitrary: s)
  case Nil
  then show ?case by (simp add: run_def rejections_def List.map_filter_simps)
next
  case (Cons e es)
  have r: "run (e # es) s = run es (listener e s)" by (simp add: run_def)
  show ?case
  proof (cases "safeParse schema (ev_data e)")
    case (Failure "is")
    then have l: "rej (listener e s) = rejectedMsg e is # take 9 (rej s)"
      by (simp add: rej_listener)
    then have len: "length (rej (listener e s)) \<le> 10" by simp
    have c: "rejections (e # es) = rejectedMsg e is # rejections es"
      using Failure by (simp add: rejections_def List.map_filter_simps)
    have "rej (run (e # es) s) = rej (run es (listener e s))"
      by (simp only: r)
    also have "\<dots> = take 10 (rev (rejections es) @ rej (listener e s))"
      using Cons.IH [OF len] .
    also have "\<dots> = take 10 (rev (rejections es) @ rejectedMsg e is # take 9 (rej s))"
      by (simp only: l)
    also have "\<dots> = take 10 (rev (rejections es) @ rejectedMsg e is # rej s)"
      by (rule take_push)
    also have "\<dots> = take 10 (rev (rejections (e # es)) @ rej s)"
      by (simp add: c)
    finally show ?thesis .
  next
    case (Success x)
    then have l: "rej (listener e s) = rej s" by (simp add: rej_listener)
    then show ?thesis
      using Success Cons.IH [of "listener e s"] Cons.prems
      by (simp add: r rejections_def List.map_filter_simps)
  next
    case Threw
    then show ?thesis using safeParse_schema_not_Threw by blast
  qed
qed

text \<open>
  Claim C4.  After any sequence of messages handled from the initial state, the rejection
  log holds at most 10 entries and is the list of the rejected messages' entries, most
  recent first, cut after the tenth.  A rejection puts its entry at the head in front of
  the first nine entries of the log; on a log of 10 entries that is the log without its
  last, oldest, entry.
\<close>

theorem rejection_log_bounded:
  "length (rej (run es initialState)) \<le> 10 \<and>
   rej (run es initialState) = take 10 (rev (rejections es)) \<and>
   (safeParse schema (ev_data e) = Failure is \<longrightarrow>
      rej (listener e s) = rejectedMsg e is # take 9 (rej s) \<and>
      (length (rej s) = 10 \<longrightarrow> rej (listener e s) = rejectedMsg e is # butlast (rej s)))"
proof -
  have "rej (run es initialState) = take 10 (rev (rejections es))"
    using rej_run [of initialState es] by (simp add: initialState_def)
  moreover have "take 9 (rej s) = butlast (rej s)" if "length (rej s) = 10"
    using that by (simp add: butlast_conv_take)
  ultimately show ?thesis
    by (simp add: rej_listener)
qed

theorem rejection_log_bounded_witness:
  "safeParse schema (ev_data (sampleEvent emptyFilesMessage)) =
     Failure [Too_small [Key ''data'', Key ''files''] 1 ''array'' ''At least one file is required''] \<and>
   length (rej (initialState\<lparr>rej := map (\<lambda>n. rejectedMsg (sampleEvent (JNum (int n))) []) [0..<10]\<rparr>)) = 10 \<and>
   rej (listener (sampleEvent emptyFilesMessage)
         (initialState\<lparr>rej := map (\<lambda>n. rejectedMsg (sampleEvent (JNum (int n))) []) [0..<10]\<rparr>)) =
     rejectedMsg (sampleEvent emptyFilesMessage)
       [Too_small [Key ''data'', Key ''files''] 1 ''array'' ''At least one file is required''] #
     map (\<lambda>n. rejectedMsg (sampleEvent (JNum (int n))) []) [0..<9]"
proof -
  have f: "safeParse schema (ev_data (sampleEvent emptyFilesMessage)) =
     Failure [Too_small [Key ''data'', Key ''files''] 1 ''array'' ''At least one file is required'']"
    by (simp add: safeParse_def sampleEvent_def schema_emptyFiles)
  have b: "butlast (map (\<lambda>n. rejectedMsg (sampleEvent (JNum (int n))) []) [0..<10]) =
      map (\<lambda>n. rejectedMsg (sampleEvent (JNum (int n))) []) [0..<9]"
    by (simp add: butlast_conv_take take_map)
  have t: "take 9 (map (\<lambda>n. rejectedMsg (sampleEvent (JNum (int n))) []) [0..<10]) =
      map (\<lambda>n. rejectedMsg (sampleEvent (JNum (int n))) []) [0..<9]"
    by (simp add: take_map)
  show ?thesis
    using f b t rejection_log_bounded [of "[]" "sampleEvent emptyFilesMessage"
        "[Too_small [Key ''data'', Key ''files''] 1 ''array'' ''At least one file is required'']"
        "initialState\<lparr>rej := map (\<lambda>n. rejectedMsg (sampleEvent (JNum (int n))) []) [0..<10]\<rparr>"]
    by simp
qed

section \<open>Properties of the matcher\<close>


lemma consumed_refl: "P [] \<Longrightarrow> consumed P st st"
  by (simp add: consumed_def)

lemma consumed_trans:
  assumes "consumed P st st1" "consumed Q st1 st2" "\<And>m n. P m \<Longrightarrow> Q n \<Longrightarrow> R (m @ n)"
  shows "consumed R st st2"
  using assms unfolding consumed_def by (metis append.assoc)

lemma iter_consumed:
  assumes f: "\<And>st st'. st' \<in> set (f st) \<Longrightarrow> consumed P st st'"
    and e: "P []" and a: "\<And>m n. P m \<Longrightarrow> P n \<Longrightarrow> P (m @ n)"
  shows "st' \<in> set (iter f n st) \<Longrightarrow> consumed P st st'"
proof (induction n arbitrary: st)
  case 0
  then show ?case using e by (simp add: consumed_refl)
next
  case (Suc n)
  from Suc.prems consider "st' = st"
    | st1 where "st1 \<in> set (f st)" "st' \<in> set (iter f n st1)"
    by auto
  then show ?case
  proof cases
    case 1
    then show ?thesis using e by (simp add: consumed_refl)
  next
    case 2
    have "consumed P st st1" using 2(1) by (rule f)
    moreover have "consumed P st1 st'" using 2(2) by (rule Suc.IH)
    ultimately show ?thesis by (rule consumed_trans) (rule a)
  qed
qed

lemma oneChar_consumed:
  "st' \<in> set (oneChar ok st) \<Longrightarrow> \<exists>c. ok c \<and> input st = c # input st'"
  by (cases "input st") (auto simp: oneChar_def split: if_splits)

lemma Lit_consumed:
  assumes "st' \<in> set (rmatch (Lit l) st)"
  shows "input st = l @ input st'"
proof -
  have "take (length l) (input st) = l" "input st' = drop (length l) (input st)"
    using assms by (auto simp: startsWith_def split: if_splits)
  then show ?thesis by (metis append_take_drop_id)
qed

lemma consumed_one: "input st = c # input st' \<Longrightarrow> P [c] \<Longrightarrow> consumed P st st'"
  unfolding consumed_def by (intro exI [of _ "[c]"]) simp

lemma consumed_same: "consumed P st st1 \<Longrightarrow> input st' = input st1 \<Longrightarrow> consumed P st st'"
  unfolding consumed_def by simp

lemma rmatch_suffix:
  "st' \<in> set (rmatch r st) \<Longrightarrow> consumed (\<lambda>m. True) st st'"
proof (induction r arbitrary: st st')
  case (Lit l)
  then have "input st = l @ input st'" by (rule Lit_consumed)
  then show ?case unfolding consumed_def by blast
next
  case (OneOf cs)
  then obtain c where "input st = c # input st'"
    using oneChar_consumed [of st' "\<lambda>c. c \<in> set cs" st] by auto
  then show ?case by (rule consumed_one) simp
next
  case (NoneOf cs)
  then obtain c where "input st = c # input st'"
    using oneChar_consumed [of st' "\<lambda>c. c \<notin> set cs" st] by auto
  then show ?case by (rule consumed_one) simp
next
  case (Seq a b)
  then obtain st1 where s: "st1 \<in> set (rmatch a st)" "st' \<in> set (rmatch b st1)" by auto
  have "consumed (\<lambda>m. True) st st1" using s(1) by (rule Seq.IH(1))
  moreover have "consumed (\<lambda>m. True) st1 st'" using s(2) by (rule Seq.IH(2))
  ultimately show ?case by (rule consumed_trans) simp
next
  case (Alt a b)
  then have "st' \<in> set (rmatch a st) \<or> st' \<in> set (rmatch b st)" by simp
  then show ?case using Alt.IH by blast
next
  case (Star a)
  then have "st' \<in> set (iter (rmatch a) (length (input st)) st)" by simp
  then show ?case by (rule iter_consumed [rotated 3]) (simp_all add: Star.IH)
next
  case (Plus a)
  then obtain st1 where s: "st1 \<in> set (rmatch a st)"
      "st' \<in> set (iter (rmatch a) (length (input st1)) st1)" by auto
  have "consumed (\<lambda>m. True) st st1" using s(1) by (rule Plus.IH)
  moreover have "consumed (\<lambda>m. True) st1 st'"
    using s(2) by (rule iter_consumed [rotated 3]) (simp_all add: Plus.IH)
  ultimately show ?case by (rule consumed_trans) simp
next
  case (Opt a)
  then have "st' \<in> set (rmatch a st) \<or> st' = st" by auto
  then show ?case using Opt.IH by (auto simp: consumed_refl)
next
  case (Group n a)
  then obtain st1 where s: "st1 \<in> set (rmatch a st)" "input st' = input st1" by auto
  have "consumed (\<lambda>m. True) st st1" using s(1) by (rule Group.IH)
  then show ?case using s(2) by (rule consumed_same)
next
  case WordBoundary
  then have "st' = st" by (simp split: if_splits)
  then show ?case by (simp add: consumed_refl)
next
  case EndOfInput
  then have "st' = st" by (simp split: if_splits)
  then show ?case by (simp add: consumed_refl)
qed

lemma subset_append: "set m \<subseteq> A \<Longrightarrow> set n \<subseteq> A \<Longrightarrow> set (m @ n) \<subseteq> A"
  by simp

lemma rmatch_consumesOnly:
  "consumesOnly K r \<Longrightarrow> st' \<in> set (rmatch r st) \<Longrightarrow> consumed (\<lambda>m. set m \<subseteq> set K) st st'"
proof (induction r arbitrary: st st')
  case (Lit l)
  have "input st = l @ input st'" using Lit.prems(2) by (rule Lit_consumed)
  moreover have "set l \<subseteq> set K" using Lit.prems(1) by (auto simp: list_all_iff)
  ultimately show ?case unfolding consumed_def by blast
next
  case (OneOf cs)
  then obtain c where c: "c \<in> set cs" "input st = c # input st'"
    using oneChar_consumed [of st' "\<lambda>c. c \<in> set cs" st] by auto
  have "c \<in> set K" using c(1) OneOf.prems(1) by (auto simp: list_all_iff)
  with c(2) show ?case by (intro consumed_one) simp_all
next
  case (NoneOf cs)
  then show ?case by simp
next
  case (Seq a b)
  then obtain st1 where s: "st1 \<in> set (rmatch a st)" "st' \<in> set (rmatch b st1)" by auto
  have "consumed (\<lambda>m. set m \<subseteq> set K) st st1" using Seq.prems(1) s(1) by (intro Seq.IH(1)) simp_all
  moreover have "consumed (\<lambda>m. set m \<subseteq> set K) st1 st'"
    using Seq.prems(1) s(2) by (intro Seq.IH(2)) simp_all
  ultimately show ?case by (rule consumed_trans) (rule subset_append)
next
  case (Alt a b)
  then have "st' \<in> set (rmatch a st) \<or> st' \<in> set (rmatch b st)" by simp
  then show ?case using Alt.IH Alt.prems(1) by auto
next
  case (Star a)
  then have m: "st' \<in> set (iter (rmatch a) (length (input st)) st)" by simp
  have f: "\<And>st st'. st' \<in> set (rmatch a st) \<Longrightarrow> consumed (\<lambda>m. set m \<subseteq> set K) st st'"
    using Star.IH Star.prems(1) by simp
  show ?case by (rule iter_consumed [OF f _ _ m]) simp_all
next
  case (Plus a)
  then obtain st1 where s: "st1 \<in> set (rmatch a st)"
      "st' \<in> set (iter (rmatch a) (length (input st1)) st1)" by auto
  have "consumed (\<lambda>m. set m \<subseteq> set K) st st1"
    using Plus.prems(1) s(1) by (intro Plus.IH) simp_all
  moreover have f: "\<And>st st'. st' \<in> set (rmatch a st) \<Longrightarrow> consumed (\<lambda>m. set m \<subseteq> set K) st st'"
    using Plus.IH Plus.prems(1) by simp
  have "consumed (\<lambda>m. set m \<subseteq> set K) st1 st'"
    by (rule iter_consumed [OF f _ _ s(2)]) simp_all
  ultimately show ?case by (rule consumed_trans) (rule subset_append)
next
  case (Opt a)
  then have "st' \<in> set (rmatch a st) \<or> st' = st" by auto
  then show ?case using Opt.IH Opt.prems(1) by (auto simp: consumed_refl)
next
  case (Group n a)
  then obtain st1 where s: "st1 \<in> set (rmatch a st)" "input st' = input st1" by auto
  have "consumed (\<lambda>m. set m \<subseteq> set K) st st1"
    using Group.prems(1) s(1) by (intro Group.IH) simp_all
  then show ?case using s(2) by (rule consumed_same)
next
  case WordBoundary
  then have "st' = st" by (simp split: if_splits)
  then show ?case by (simp add: consumed_refl)
next
  case EndOfInput
  then have "st' = st" by (simp split: if_splits)
  then show ?case by (simp add: consumed_refl)
qed

lemma oneChar_captures: "st' \<in> set (oneChar ok st) \<Longrightarrow> captures st' = captures st"
  by (cases "input st") (auto simp: oneChar_def split: if_splits)

lemma iter_capsIn:
  assumes f: "\<And>st st'. capsIn K st \<Longrightarrow> st' \<in> set (f st) \<Longrightarrow> capsIn K st'"
  shows "capsIn K st \<Longrightarrow> st' \<in> set (iter f n st) \<Longrightarrow> capsIn K st'"
proof (induction n arbitrary: st)
  case 0
  then show ?case by simp
next
  case (Suc n)
  from Suc.prems(2) consider "st' = st"
    | st1 where "st1 \<in> set (f st)" "st' \<in> set (iter f n st1)"
    by auto
  then show ?case
  proof cases
    case 1
    then show ?thesis using Suc.prems(1) by simp
  next
    case 2
    have "capsIn K st1" using Suc.prems(1) 2(1) by (rule f)
    then show ?thesis using 2(2) by (rule Suc.IH)
  qed
qed

lemma rmatch_capsIn:
  "groupsOnly K r \<Longrightarrow> capsIn K st \<Longrightarrow> st' \<in> set (rmatch r st) \<Longrightarrow> capsIn K st'"
proof (induction r arbitrary: st st')
  case (Lit l)
  then have "captures st' = captures st" by (auto split: if_splits)
  then show ?case using Lit.prems(2) by (simp add: capsIn_def)
next
  case (OneOf cs)
  then have "captures st' = captures st" by (simp add: oneChar_captures)
  then show ?case using OneOf.prems(2) by (simp add: capsIn_def)
next
  case (NoneOf cs)
  then have "captures st' = captures st" by (simp add: oneChar_captures)
  then show ?case using NoneOf.prems(2) by (simp add: capsIn_def)
next
  case (Seq a b)
  from Seq.prems(3) obtain st1 where s: "st1 \<in> set (rmatch a st)" "st' \<in> set (rmatch b st1)" by auto
  have ga: "groupsOnly K a" and gb: "groupsOnly K b" using Seq.prems(1) by simp_all
  have "capsIn K st1" using ga Seq.prems(2) s(1) by (rule Seq.IH(1))
  then show ?case using s(2) by (rule Seq.IH(2) [OF gb])
next
  case (Alt a b)
  from Alt.prems(3) have "st' \<in> set (rmatch a st) \<or> st' \<in> set (rmatch b st)" by simp
  moreover have ga: "groupsOnly K a" and gb: "groupsOnly K b" using Alt.prems(1) by simp_all
  ultimately show ?case using Alt.IH(1) [OF ga Alt.prems(2)] Alt.IH(2) [OF gb Alt.prems(2)] by blast
next
  case (Star a)
  from Star.prems(3) have m: "st' \<in> set (iter (rmatch a) (length (input st)) st)" by simp
  have ga: "groupsOnly K a" using Star.prems(1) by simp
  have f: "\<And>st st'. capsIn K st \<Longrightarrow> st' \<in> set (rmatch a st) \<Longrightarrow> capsIn K st'"
    by (rule Star.IH [OF ga])
  show ?case by (rule iter_capsIn [OF f Star.prems(2) m])
next
  case (Plus a)
  from Plus.prems(3) obtain st1 where s: "st1 \<in> set (rmatch a st)"
      "st' \<in> set (iter (rmatch a) (length (input st1)) st1)" by auto
  have ga: "groupsOnly K a" using Plus.prems(1) by simp
  have f: "\<And>st st'. capsIn K st \<Longrightarrow> st' \<in> set (rmatch a st) \<Longrightarrow> capsIn K st'"
    by (rule Plus.IH [OF ga])
  have c1: "capsIn K st1" using Plus.prems(2) s(1) by (rule f)
  show ?case by (rule iter_capsIn [OF f c1 s(2)])
next
  case (Opt a)
  from Opt.prems(3) have "st' \<in> set (rmatch a st) \<or> st' = st" by auto
  moreover have ga: "groupsOnly K a" using Opt.prems(1) by simp
  ultimately show ?case using Opt.IH [OF ga Opt.prems(2)] Opt.prems(2) by blast
next
  case (Group n a)
  from Group.prems(3) obtain st1 where s: "st1 \<in> set (rmatch a st)"
      "captures st' = (n, take (length (input st) - length (input st1)) (input st)) # captures st1"
    by auto
  have ga: "groupsOnly K a" and ca: "consumesOnly K a" using Group.prems(1) by simp_all
  have "capsIn K st1" using ga Group.prems(2) s(1) by (rule Group.IH)
  moreover have "consumed (\<lambda>m. set m \<subseteq> set K) st st1" using ca s(1) by (rule rmatch_consumesOnly)
  then obtain m where m: "input st = m @ input st1" "set m \<subseteq> set K"
    unfolding consumed_def by blast
  moreover have "take (length (input st) - length (input st1)) (input st) = m"
    using m(1) by simp
  ultimately show ?case using s(2) by (simp add: capsIn_def)
next
  case WordBoundary
  then show ?case by (simp split: if_splits)
next
  case EndOfInput
  then show ?case by (simp split: if_splits)
qed

lemma capture_in:
  assumes "capsIn K st"
  shows "set (capture (captures st) n) \<subseteq> set K"
proof (cases "map_of (captures st) n")
  case None
  then show ?thesis by (simp add: capture_def)
next
  case (Some s)
  then have "(n, s) \<in> set (captures st)" by (rule map_of_SomeD)
  then have "set (snd (n, s)) \<subseteq> set K" using assms unfolding capsIn_def by blast
  then have "set s \<subseteq> set K" by simp
  then show ?thesis using Some by (simp add: capture_def)
qed

lemma rmatch_mustConsume:
  "mustConsume c r \<Longrightarrow> st' \<in> set (rmatch r st) \<Longrightarrow> consumed (\<lambda>m. c \<in> set m) st st'"
proof (induction r arbitrary: st st')
  case (Lit l)
  have "input st = l @ input st'" using Lit.prems(2) by (rule Lit_consumed)
  then show ?case using Lit.prems(1) unfolding consumed_def by auto
next
  case (Seq a b)
  then obtain st1 where s: "st1 \<in> set (rmatch a st)" "st' \<in> set (rmatch b st1)" by auto
  from Seq.prems(1) have "mustConsume c a \<or> mustConsume c b" by simp
  then show ?case
  proof
    assume "mustConsume c a"
    then have "consumed (\<lambda>m. c \<in> set m) st st1" using s(1) by (rule Seq.IH(1))
    moreover have "consumed (\<lambda>m. True) st1 st'" using s(2) by (rule rmatch_suffix)
    ultimately show ?thesis by (rule consumed_trans) simp
  next
    assume "mustConsume c b"
    then have 2: "consumed (\<lambda>m. c \<in> set m) st1 st'" using s(2) by (rule Seq.IH(2))
    have 1: "consumed (\<lambda>m. True) st st1" using s(1) by (rule rmatch_suffix)
    show ?thesis by (rule consumed_trans [OF 1 2]) simp
  qed
next
  case (Alt a b)
  then have "st' \<in> set (rmatch a st) \<or> st' \<in> set (rmatch b st)" by simp
  then show ?case using Alt.IH Alt.prems(1) by auto
next
  case (Plus a)
  then obtain st1 where s: "st1 \<in> set (rmatch a st)"
      "st' \<in> set (iter (rmatch a) (length (input st1)) st1)" by auto
  have "consumed (\<lambda>m. c \<in> set m) st st1" using Plus.prems(1) s(1) by (intro Plus.IH) simp_all
  moreover have "consumed (\<lambda>m. True) st1 st'"
    by (rule iter_consumed [OF rmatch_suffix _ _ s(2)]) simp_all
  ultimately show ?case by (rule consumed_trans) simp
next
  case (Group n a)
  then obtain st1 where s: "st1 \<in> set (rmatch a st)" "input st' = input st1" by auto
  have "consumed (\<lambda>m. c \<in> set m) st st1" using Group.prems(1) s(1) by (intro Group.IH) simp_all
  then show ?case using s(2) by (rule consumed_same)
qed simp_all

lemma count_char_append [simp]: "count_char c (xs @ ys) = count_char c xs + count_char c ys"
  by (simp add: count_char_def)

lemma count_char_Nil [simp]: "count_char c [] = 0"
  by (simp add: count_char_def)

lemma count_char_Cons: "count_char c (x # xs) = (if x = c then 1 else 0) + count_char c xs"
  by (simp add: count_char_def)

lemma count_char_notin: "c \<notin> set xs \<Longrightarrow> count_char c xs = 0"
  by (induction xs) (auto simp: count_char_Cons)

lemma count_char_in: "c \<in> set xs \<Longrightarrow> 1 \<le> count_char c xs"
  by (induction xs) (auto simp: count_char_Cons)

lemma first_match_split:
  assumes "rmatch r (MState p s []) = st # sts"
  obtains m where "s = m @ input st" "take (length s - length (input st)) s = m"
proof -
  have "st \<in> set (rmatch r (MState p s []))" using assms by simp
  then have "consumed (\<lambda>m. True) (MState p s []) st" by (rule rmatch_suffix)
  then obtain m where m: "s = m @ input st" unfolding consumed_def by auto
  have "length s = length m + length (input st)" by (subst m) simp
  then have "take (length s - length (input st)) s = take (length m) (m @ input st)"
    using m by simp
  then have "take (length s - length (input st)) s = m" by simp
  with m show ?thesis by (rule that)
qed

lemma replaceAll_count:
  assumes step: "\<And>p s st sts m. rmatch r (MState p s []) = st # sts \<Longrightarrow> s = m @ input st \<Longrightarrow>
      count_char c (f m (captures st)) \<le> count_char c m"
  shows "count_char c (replaceAll r f p s) \<le> count_char c s"
proof (induction "length s" arbitrary: p s rule: less_induct)
  case less
  have tail: "count_char c (case s of [] \<Rightarrow> [] | x # xs \<Rightarrow> x # replaceAll r f (Some x) xs) \<le> count_char c s"
  proof (cases s)
    case Nil
    then show ?thesis by simp
  next
    case (Cons x xs)
    have "count_char c (replaceAll r f (Some x) xs) \<le> count_char c xs"
      using Cons by (intro less) simp
    then show ?thesis using Cons by (simp add: count_char_Cons)
  qed
  show ?case
  proof (cases "rmatch r (MState p s [])")
    case Nil
    then show ?thesis using tail by (subst replaceAll.simps) simp
  next
    case (Cons st sts)
    obtain m where s: "s = m @ input st" and m_def: "take (length s - length (input st)) s = m"
      using Cons by (rule first_match_split)
    have len: "length s = length m + length (input st)" by (subst s) simp
    have f: "count_char c (f m (captures st)) \<le> count_char c m"
      using Cons s by (rule step)
    show ?thesis
    proof (cases "length (input st) < length s")
      case True
      have "count_char c (replaceAll r f (prevChar st) (input st)) \<le> count_char c (input st)"
        using True by (intro less)
      moreover have "count_char c s = count_char c m + count_char c (input st)"
        by (subst s) simp
      ultimately show ?thesis
        using Cons True f by (subst replaceAll.simps) (simp add: m_def)
    next
      case False
      then have "m = []" using len by simp
      then show ?thesis
        using Cons False f tail by (subst replaceAll.simps) simp
    qed
  qed
qed

lemma replaceFirst_count:
  "count_char c (replaceFirst r drop_match p s) \<le> count_char c s"
proof (induction s arbitrary: p)
  case Nil
  then show ?case by (simp add: drop_match_def split: list.splits)
next
  case (Cons x xs)
  show ?case
  proof (cases "rmatch r (MState p (x # xs) [])")
    case Nil
    then show ?thesis using Cons.IH [of "Some x"] by (simp add: count_char_Cons)
  next
    case (Cons st sts)
    obtain m where m: "x # xs = m @ input st"
      using Cons by (rule first_match_split)
    have "count_char c (m @ input st) = count_char c m + count_char c (input st)"
      by (rule count_char_append)
    then have "count_char c (input st) \<le> count_char c (x # xs)"
      unfolding m [symmetric] by simp
    then show ?thesis using Cons by (simp add: drop_match_def)
  qed
qed

lemma drop_match_step: "count_char c (drop_match m cs) \<le> count_char c m"
  by (simp add: drop_match_def)

lemma strip_annotation_step: "count_char c (strip_annotation m cs) \<le> count_char c m"
  by (simp add: strip_annotation_def replaceFirst_count)

lemma keep_group_step:
  assumes g: "groupsOnly K r" and k: "c \<notin> set K" and pre: "c \<notin> set pre"
    and post: "c \<notin> set post \<or> count_char c post = 1 \<and> mustConsume c r"
    and r: "rmatch r (MState p s []) = st # sts" and s: "s = m @ input st"
  shows "count_char c (keep_group pre post m (captures st)) \<le> count_char c m"
proof -
  have mem: "st \<in> set (rmatch r (MState p s []))" using r by simp
  have c0: "capsIn K (MState p s [])" by (simp add: capsIn_def)
  have "capsIn K st" by (rule rmatch_capsIn [OF g c0 mem])
  then have "set (capture (captures st) 1) \<subseteq> set K" by (rule capture_in)
  then have "c \<notin> set (capture (captures st) 1)" using k by blast
  then have 0: "count_char c (pre @ capture (captures st) 1) = 0"
    using pre by (simp add: count_char_notin)
  from post show ?thesis
  proof
    assume "c \<notin> set post"
    then show ?thesis using 0 by (simp add: keep_group_def count_char_notin)
  next
    assume a: "count_char c post = 1 \<and> mustConsume c r"
    then have mc: "mustConsume c r" by simp
    have "consumed (\<lambda>m. c \<in> set m) (MState p s []) st"
      by (rule rmatch_mustConsume [OF mc mem])
    then obtain m' where m': "s = m' @ input st" "c \<in> set m'"
      unfolding consumed_def by auto
    have "m' @ input st = m @ input st" using m'(1) [symmetric] s by (rule trans)
    then have "m' = m" by simp
    then have "c \<in> set m" using m'(2) by simp
    then have "1 \<le> count_char c m" by (rule count_char_in)
    then show ?thesis using 0 a by (simp add: keep_group_def)
  qed
qed

lemma applyRules_count:
  assumes "\<And>rule s. rule \<in> set rules \<Longrightarrow> count_char c (applyRule rule s) \<le> count_char c s"
  shows "count_char c (applyRules rules s) \<le> count_char c s"
  using assms
proof (induction rules arbitrary: s)
  case Nil
  then show ?case by (simp add: applyRules_def)
next
  case (Cons rule rules)
  have "count_char c (applyRules rules (applyRule rule s)) \<le> count_char c (applyRule rule s)"
    using Cons.prems by (intro Cons.IH) simp
  moreover have "count_char c (applyRule rule s) \<le> count_char c s"
    using Cons.prems by simp
  moreover have "applyRules (rule # rules) s = applyRules rules (applyRule rule s)"
    by (simp add: applyRules_def)
  ultimately show ?case by simp
qed

lemma groups_of_rules:
  "groupsOnly (wordChars @ ''$'') (reExportDefault ''function'')"
  "groupsOnly (wordChars @ ''$'') (reExportDefault ''class'')"
  "groupsOnly (wordChars @ ''$'') (reExportDefault ''const'')"
  "groupsOnly (wordChars @ ''$'') reExportDecl"
  "groupsOnly (wordChars @ ''$'') reGenericCall"
  by code_simp+

lemma paren_of_generic: "mustConsume CHR ''('' reGenericCall"
  by code_simp

lemma delimiters_not_word:
  assumes "c \<in> set ''{}()''"
  shows "c \<notin> set (wordChars @ ''$'')" "c \<notin> set ''function ''" "c \<notin> set ''class ''"
    "c \<notin> set ''const ''" "c \<notin> set '' ''" "c \<notin> set []"
    "c \<notin> set ''('' \<or> count_char c ''('' = 1 \<and> mustConsume c reGenericCall"
  using assms paren_of_generic by (auto simp: wordChars_def count_char_def)

lemma stripRules_count:
  assumes c: "c \<in> set ''{}()''" and rule: "rule \<in> set stripRules"
  shows "count_char c (applyRule rule s) \<le> count_char c s"
proof -
  note d = delimiters_not_word [OF c]
  note g = groups_of_rules
  have drop: "count_char c (applyRule (r, drop_match) s) \<le> count_char c s" for r
    unfolding applyRule_def fst_conv snd_conv by (rule replaceAll_count) (rule drop_match_step)
  have ann: "count_char c (applyRule (r, strip_annotation) s) \<le> count_char c s" for r
    unfolding applyRule_def fst_conv snd_conv by (rule replaceAll_count) (rule strip_annotation_step)
  have keep: "count_char c (applyRule (r, keep_group pre post) s) \<le> count_char c s"
    if "groupsOnly (wordChars @ ''$'') r" "c \<notin> set pre"
      "c \<notin> set post \<or> count_char c post = 1 \<and> mustConsume c r" for r pre post
    unfolding applyRule_def fst_conv snd_conv
    by (rule replaceAll_count) (rule keep_group_step [OF that(1) d(1) that(2) that(3)])
  from rule consider
      "rule = (reImport, drop_match)"
    | "rule = (reExportDefault ''function'', keep_group ''function '' [])"
    | "rule = (reExportDefault ''class'', keep_group ''class '' [])"
    | "rule = (reExportDefault ''const'', keep_group ''const '' [])"
    | "rule = (reExportDefaultBare, drop_match)"
    | "rule = (reExportDecl, keep_group [] '' '')"
    | "rule = (reExportList, drop_match)"
    | "rule = (reGenericCall, keep_group [] ''('')"
    | "rule = (reInterface, drop_match)"
    | "rule = (reTypeAlias, drop_match)"
    | "rule = (reAnnotation, strip_annotation)"
    | "rule = (reDirective, drop_match)"
    unfolding stripRules_def by auto
  then show ?thesis
  proof cases
    case 2
    show ?thesis unfolding 2 by (rule keep [OF g(1) d(2)]) (simp add: d(6))
  next
    case 3
    show ?thesis unfolding 3 by (rule keep [OF g(2) d(3)]) (simp add: d(6))
  next
    case 4
    show ?thesis unfolding 4 by (rule keep [OF g(3) d(4)]) (simp add: d(6))
  next
    case 6
    show ?thesis unfolding 6 by (rule keep [OF g(4) d(6)]) (rule disjI1, rule d(5))
  next
    case 8
    show ?thesis unfolding 8 by (rule keep [OF g(5) d(6) d(7)])
  next
    case 11
    show ?thesis unfolding 11 by (rule ann)
  qed (simp_all add: drop)
qed

lemma stripTS_never_adds:
  assumes "c \<in> set ''{}()''"
  shows "count_char c (stripTS s) \<le> count_char c s"
  unfolding stripTS_def
  by (rule applyRules_count) (rule stripRules_count [OF assms])

section \<open>Properties of root-component discovery\<close>

lemma searchCandidates_first:
  assumes "i < length names" "isFunction (map_of w (names ! i))"
    "\<forall>j<i. \<not> isFunction (map_of w (names ! j))"
  shows "searchCandidates w names = map_of w (names ! i)"
  using assms
proof (induction names arbitrary: i)
  case Nil
  then show ?case by simp
next
  case (Cons name names)
  show ?case
  proof (cases i)
    case 0
    then show ?thesis using Cons.prems by simp
  next
    case (Suc k)
    have "\<not> isFunction (map_of w name)" using Cons.prems(3) Suc by auto
    moreover have "searchCandidates w names = map_of w (names ! k)"
      using Cons.prems Suc by (intro Cons.IH) auto
    ultimately show ?thesis using Suc by simp
  qed
qed

text \<open>
  Claim C7.  When a candidate name is bound to a function and no name before it in the
  candidate list is, discovery returns the value bound to that name, whatever the later
  names are bound to.  In particular, when \<open>HomePage\<close> and \<open>App\<close> are both bound to
  functions, discovery returns the function bound to \<open>App\<close>.
\<close>

theorem root_priority:
  "(i < length candidates \<and> isFunction (map_of w (candidates ! i)) \<and>
    (\<forall>j<i. \<not> isFunction (map_of w (candidates ! j))) \<longrightarrow>
      findRootComponent w = Inr (map_of w (candidates ! i))) \<and>
   (isFunction (map_of w ''HomePage'') \<and> isFunction (map_of w ''App'') \<longrightarrow>
      findRootComponent w = Inr (map_of w ''App''))"
proof -
  have a: "findRootComponent w = Inr (map_of w (candidates ! i))"
    if h1: "i < length candidates" and h2: "isFunction (map_of w (candidates ! i))"
      and h3: "\<forall>j<i. \<not> isFunction (map_of w (candidates ! j))"
  proof -
    have "searchCandidates w candidates = map_of w (candidates ! i)"
      using h1 h2 h3 by (rule searchCandidates_first)
    moreover obtain n where "map_of w (candidates ! i) = Some (FunctionValue n)"
      using h2 by (auto simp: isFunction_def split: option.splits winValue.splits)
    ultimately show ?thesis by (simp add: findRootComponent_def)
  qed
  have b: "findRootComponent w = Inr (map_of w ''App'')" if h: "isFunction (map_of w ''App'')"
  proof -
    obtain n where "map_of w ''App'' = Some (FunctionValue n)"
      using h by (auto simp: isFunction_def split: option.splits winValue.splits)
    then show ?thesis using h by (simp add: findRootComponent_def candidates_def)
  qed
  show ?thesis using a b by blast
qed

theorem root_priority_witness:
  "isFunction (map_of sampleWindow ''HomePage'') \<and> isFunction (map_of sampleWindow ''App'') \<and>
   (0::nat) < length candidates \<and> isFunction (map_of sampleWindow (candidates ! 0)) \<and>
   findRootComponent sampleWindow = Inr (Some (FunctionValue 2)) \<and>
   findRootComponent [(''HomePage'', FunctionValue 1), (''Page'', FunctionValue 5)] = Inr (Some (FunctionValue 1))"
proof -
  have h: "isFunction (map_of sampleWindow ''HomePage'')" "isFunction (map_of sampleWindow ''App'')"
    by (simp_all add: sampleWindow_def isFunction_def)
  have k: "(1::nat) < length candidates"
    "isFunction (map_of [(''HomePage'', FunctionValue 1), (''Page'', FunctionValue 5)] (candidates ! 1))"
    "\<forall>j<(1::nat). \<not> isFunction (map_of [(''HomePage'', FunctionValue 1), (''Page'', FunctionValue 5)] (candidates ! j))"
    by (simp_all add: candidates_def isFunction_def)
  have c: "candidates ! 0 = ''App''" "candidates ! 1 = ''HomePage''" by (simp_all add: candidates_def)
  show ?thesis
    using h k c root_priority [of 1 "[(''HomePage'', FunctionValue 1), (''Page'', FunctionValue 5)]"]
      root_priority [of 0 sampleWindow]
    by (simp add: sampleWindow_def candidates_def)
qed

section \<open>Properties of the syntax stripper\<close>

text \<open>
  Claim C6, as stated, fails.  Running the export-removal rules, the type-annotation rule
  or the whole stripper a second time can change the text again: from
  \<open>export export const x = 1;\<close> the first run removes one \<open>export\<close> and the second run
  the other, and from \<open>x: a: b;\<close> each run removes one annotation.  The stripper can make
  the balance of braces worse: in \<open>{ important }\<close> the import rule removes everything from
  \<open>import\<close> to the end of the text, the closing brace included.
\<close>

theorem stripTS_counterexample:
  "applyRules exportRules (applyRules exportRules ''export export const x = 1;'') \<noteq>
     applyRules exportRules ''export export const x = 1;'' \<and>
   applyRules annotationRules (applyRules annotationRules ''x: a: b;'') \<noteq>
     applyRules annotationRules ''x: a: b;'' \<and>
   stripTS (stripTS ''export export const x = 1;'') \<noteq> stripTS ''export export const x = 1;'' \<and>
   imbalance CHR ''{'' CHR ''}'' ''{ important }'' = 0 \<and>
   imbalance CHR ''{'' CHR ''}'' (stripTS ''{ important }'') = 1"
  by code_simp

lemma replaceAll_no_match:
  "\<not> test r p s \<Longrightarrow> replaceAll r f p s = s"
proof (induction s arbitrary: p)
  case Nil
  then show ?case by (subst replaceAll.simps) simp
next
  case (Cons c cs)
  then show ?case by (subst replaceAll.simps) simp
qed

lemma applyRules_untouched:
  "untouched rules s \<Longrightarrow> applyRules rules s = s"
  by (induction rules) (simp_all add: untouched_def applyRules_def applyRule_def replaceAll_no_match)

text \<open>
  Claim C6, amended.  On every text in which none of the patterns of the stripper has a
  match, the stripper returns the text unchanged: a second run produces no further change,
  and the balance delta of any pair of delimiters is that of the input.  On every text,
  the stripper adds no brace and no parenthesis: each of the four characters occurs in the
  output at most as often as in the input.
\<close>

theorem stripTS_amended:
  "(untouched stripRules s \<longrightarrow>
      stripTS s = s \<and> stripTS (stripTS s) = stripTS s \<and>
      imbalance opening closing (stripTS s) = imbalance opening closing s) \<and>
   (c \<in> set ''{}()'' \<longrightarrow> count_char c (stripTS t) \<le> count_char c t)"
  using applyRules_untouched [of stripRules s] stripTS_never_adds [of c t]
  by (simp add: stripTS_def)

theorem stripTS_amended_witness:
  "untouched stripRules ''function App(){return null}'' \<and>
   stripTS ''function App(){return null}'' = ''function App(){return null}'' \<and>
   CHR ''}'' \<in> set ''{}()'' \<and>
   count_char CHR ''}'' (stripTS ''{ important }'') \<le> count_char CHR ''}'' ''{ important }''"
proof -
  have u: "untouched stripRules ''function App(){return null}''"
    by code_simp
  have m: "CHR ''}'' \<in> set ''{}()''" by simp
  show ?thesis
    using u m stripTS_amended [of "''function App(){return null}''" "CHR ''{''" "CHR ''}''" "CHR ''}''"
        "''{ important }''"]
    by simp
qed

section \<open>Properties of the preview document builder\<close>

subsection \<open>The script pattern\<close>

lemma rmatch_reScript:
  "rmatch reScript (MState p s []) \<noteq> [] \<longleftrightarrow> s = ''.ts'' \<or> s = ''.tsx'' \<or> s = ''.js'' \<or> s = ''.jsx''"
proof (cases s)
  case Nil
  then show ?thesis by (simp add: reScript_def seqs_def startsWith_def)
next
  case s1: (Cons c1 t1)
  show ?thesis
  proof (cases t1)
    case Nil
    then show ?thesis using s1 by (simp add: reScript_def seqs_def startsWith_def)
  next
    case s2: (Cons c2 t2)
    show ?thesis
    proof (cases t2)
      case Nil
      then show ?thesis using s1 s2 by (simp add: reScript_def seqs_def startsWith_def)
    next
      case s3: (Cons c3 t3)
      show ?thesis
      proof (cases t3)
        case Nil
        then show ?thesis using s1 s2 s3 by (auto simp add: reScript_def seqs_def startsWith_def)
      next
        case s4: (Cons c4 t4)
        show ?thesis
        proof (cases t4)
          case Nil
          then show ?thesis using s1 s2 s3 s4 by (auto simp add: reScript_def seqs_def startsWith_def)
        next
          case (Cons c5 t5)
          then show ?thesis using s1 s2 s3 s4 by (auto simp add: reScript_def seqs_def startsWith_def)
        qed
      qed
    qed
  qed
qed

lemma endsWith_Cons:
  "endsWith (c # cs) suf \<longleftrightarrow> suf = c # cs \<or> endsWith cs suf"
  by (auto simp: endsWith_def Suc_diff_le drop_Cons' not_le split: if_splits)

lemma test_reScript:
  "test reScript p s \<longleftrightarrow>
     endsWith s ''.ts'' \<or> endsWith s ''.tsx'' \<or> endsWith s ''.js'' \<or> endsWith s ''.jsx''"
proof (induction s arbitrary: p)
  case Nil
  then show ?case by (simp add: rmatch_reScript endsWith_def)
next
  case (Cons c cs)
  show ?case
    by (simp only: test.simps rmatch_reScript Cons.IH endsWith_Cons) auto
qed

lemma isScript_iff:
  "isScript f \<longleftrightarrow>
     endsWith (path f) ''.ts'' \<or> endsWith (path f) ''.tsx'' \<or> endsWith (path f) ''.js'' \<or>
     endsWith (path f) ''.jsx''"
  by (simp add: isScript_def test_reScript)

subsection \<open>Steps that do not throw\<close>

lemma filterT_total: "filterT (\<lambda>x. Inr (P x)) xs = Inr (filter P xs)"
  by (induction xs) simp_all


subsection \<open>No script files\<close>

text \<open>
  Claim C5.  For every project none of whose paths matches the script pattern (by
  \<open>isScript_iff\<close>: none ends in \<open>.ts\<close>, \<open>.tsx\<close>, \<open>.js\<close> or \<open>.jsx\<close>), the builder returns the
  document titled \<open>No React Components Found\<close>, whose list of available files is the paths
  of all the files of the project, in file order, separated by a comma and a space.  No
  preview error is set.
\<close>

theorem no_components_document:
  assumes "list_all (\<lambda>f. \<not> isScript f) (files p)"
  shows \<open>buildPreview (Some p) =
    (''<!DOCTYPE html><html><head><meta charset='utf-8'/></head><body>\<newline>'' @
     ''          <div style="padding:24px;font-family:system-ui;text-align:center;">\<newline>'' @
     ''            <h2>No React Components Found</h2>\<newline>'' @
     ''            <p>Upload files with .js, .jsx, .ts, or .tsx extensions to see a preview.</p>\<newline>'' @
     ''            <p>Available files: '' @ join '', '' (map path (files p)) @ ''</p>\<newline>'' @
     ''          </div></body></html>'', None)\<close>
proof -
  have "filter isScript (files p) = []"
    using assms by (simp add: list_all_iff filter_empty_conv)
  then show ?thesis
    by (simp add: buildPreview_def buildPreviewWith_def buildBody_def tryCatch_def
        sourceSteps_def filterT_total noComponentsDocument_def)
qed

theorem no_components_document_witness:
  \<open>list_all (\<lambda>f. \<not> isScript f) (files stylesOnlyProject) \<and>
   buildPreview (Some stylesOnlyProject) =
    (''<!DOCTYPE html><html><head><meta charset='utf-8'/></head><body>\<newline>'' @
     ''          <div style="padding:24px;font-family:system-ui;text-align:center;">\<newline>'' @
     ''            <h2>No React Components Found</h2>\<newline>'' @
     ''            <p>Upload files with .js, .jsx, .ts, or .tsx extensions to see a preview.</p>\<newline>'' @
     ''            <p>Available files: styles.css, README.md</p>\<newline>'' @
     ''          </div></body></html>'', None)\<close>
proof -
  have h: "list_all (\<lambda>f. \<not> isScript f) (files stylesOnlyProject)"
    by (simp add: stylesOnlyProject_def isScript_iff endsWith_def)
  show ?thesis
    using h no_components_document [OF h] by (simp add: stylesOnlyProject_def)
qed

subsection \<open>The builder returns a document\<close>






end
